theory Spec2Isabelle
  imports Main "HOL-Library.Word" "HOL-Library.List_Lexorder"
begin

section \<open>Data model\<close>

text \<open>
  JavaScript strings are sequences of UTF-16 code units, and \<open><\<close>, \<open>>\<close>, \<open><=\<close> on
  strings compare them code unit by code unit, a proper prefix being smaller. A string is
  therefore a list of 16-bit words under the lexicographic order of lists.
\<close>

type_synonym jsstring = "16 word list"

definition js :: "string \<Rightarrow> jsstring" where
  "js s = map of_char s"

text \<open>JavaScript truthiness of a \<open>string | null\<close> value: \<open>null\<close> and \<open>''\<close> are falsy.\<close>

fun truthy :: "jsstring option \<Rightarrow> bool" where
  "truthy None = False"
| "truthy (Some t) = (t \<noteq> [])"

text \<open>Snapshots are heterogeneous JSON: a tagged tree of objects, arrays, primitives and refs.\<close>

datatype json =
    JNull
  | JPrim jsstring
  | JRef jsstring
  | JObj "(jsstring \<times> json) list"
  | JArr "json list"

datatype patch =
    Set jsstring json
  | Delete jsstring
  | ListInsert nat json
  | ListMove nat nat
  | ListDelete nat
  | Initialize json

text \<open>\<open>Operation\<close>: \<open>{ oid, timestamp, data }\<close>.\<close>

record operation =
  op_oid :: jsstring
  op_timestamp :: jsstring
  op_data :: patch

text \<open>\<open>OperationHistoryItem\<close>: a stored operation, with the replica that produced it.\<close>

record operationHistoryItem =
  h_oid :: jsstring
  h_timestamp :: jsstring
  h_data :: patch
  h_replicaId :: jsstring

text \<open>\<open>DocumentBaseline\<close>: \<open>{ oid, snapshot, timestamp }\<close>.\<close>

record documentBaseline =
  bl_oid :: jsstring
  bl_snapshot :: json
  bl_timestamp :: jsstring

datatype replicaType = Realtime | Push | Pull | ReadOnlyRealtime | ReadOnlyPull

record tokenInfo =
  tok_userId :: jsstring
  tok_type :: replicaType

record replicaInfo =
  r_id :: jsstring
  r_clientId :: jsstring
  r_type :: replicaType
  r_ackedLogicalTime :: "jsstring option"
  r_lastSeen :: nat

record presenceEntry =
  p_presence :: json
  p_replicaId :: jsstring
  p_profile :: json
  p_id :: jsstring

datatype clientMessage =
    OpMsg jsstring "operation list"
  | SyncMsg jsstring bool
  | SyncStep2Msg jsstring "operation list" "documentBaseline list" jsstring
  | AckMsg jsstring jsstring
  | HeartbeatMsg jsstring
  | PresenceUpdateMsg jsstring json
  | UnknownMsg jsstring

fun msg_replicaId :: "clientMessage \<Rightarrow> jsstring" where
  "msg_replicaId (OpMsg r _) = r"
| "msg_replicaId (SyncMsg r _) = r"
| "msg_replicaId (SyncStep2Msg r _ _ _) = r"
| "msg_replicaId (AckMsg r _) = r"
| "msg_replicaId (HeartbeatMsg r) = r"
| "msg_replicaId (PresenceUpdateMsg r _) = r"
| "msg_replicaId (UnknownMsg r) = r"

datatype serverMessage =
    Forbidden
  | SyncResp
      (sr_operations: "operation list")
      (sr_baselines: "documentBaseline list")
      (sr_provideChangesSince: "jsstring option")
      (sr_globalAckTimestamp: "jsstring option")
      (sr_peerPresence: "(jsstring \<times> presenceEntry) list")
      (sr_overwriteLocalData: bool)
  | OpRe "operation list" "documentBaseline list" jsstring "jsstring option"
  | GlobalAck jsstring
  | HeartbeatResponse
  | PresenceChanged jsstring presenceEntry
  | PresenceOffline jsstring jsstring

text \<open>
  The effects on the \<open>MessageSender\<close>: \<open>send(library, clientKey, message)\<close> to one
  connection, \<open>broadcast(library, message, omitKeys)\<close> to every connection of the
  library but the omitted ones.
\<close>

datatype outgoing =
    Send jsstring serverMessage
  | Broadcast serverMessage "jsstring list"


text \<open>
  The state of one \<open>ServerLibrary\<close>: its three tables, the presence map, the messages
  handed to the sender so far, the field \<open>pendingRebaseTimeout\<close>, the number of
  \<open>setTimeout(this.rebase, 0)\<close> callbacks scheduled and not yet run, the clock (in
  minutes) and the truancy threshold.
\<close>

record serverLibrary =
  replicas :: "replicaInfo list"
  operations :: "operationHistoryItem list"
  baselines :: "documentBaseline list"
  presences :: "(jsstring \<times> presenceEntry) list"
  outbox :: "outgoing list"
  pendingRebaseTimeout :: "nat option"
  timers :: nat
  now :: nat
  replicaTruancyMinutes :: nat

datatype error =
    ReplicaNotOwned jsstring jsstring
  | StorageFailure

text \<open>
  A handler either returns, or raises with the state as it was at the raise: a JavaScript
  exception undoes nothing that was done before it.
\<close>

datatype outcome =
    Returned serverLibrary
  | Raised error serverLibrary

section \<open>ReplicaInfos\<close>

text \<open>
  Modelled from the spec: the class \<open>ReplicaInfos\<close> (Replicas.ts) is not among the
  sources; its operations follow section 4.3 of the specification.
\<close>

definition replicas_get :: "replicaInfo list \<Rightarrow> jsstring \<Rightarrow> replicaInfo option" where
  "replicas_get rs rid = find (\<lambda>r. r_id r = rid) rs"

text \<open>Modelled from the spec: the read-only replica types, \<open>ReadOnlyRealtime\<close> and
  \<open>ReadOnlyPull\<close>.\<close>

definition isReadOnly :: "replicaType \<Rightarrow> bool" where
  "isReadOnly t = (t = ReadOnlyPull \<or> t = ReadOnlyRealtime)"

text \<open>
  Modelled from the spec: truancy. A replica is truant when \<open>now - lastSeen\<close> exceeds
  the configured threshold.
\<close>

definition isTruant :: "nat \<Rightarrow> nat \<Rightarrow> replicaInfo \<Rightarrow> bool" where
  "isTruant nw thr r = (thr < nw - r_lastSeen r)"

datatype replicaStatus = New | Existing | Truant

text \<open>
  Modelled from the spec: \<open>getOrCreate(replicaId, tokenInfo)\<close> returns
  \<open>{ status: new | existing | truant, info }\<close> and creates the row of a new replica.
\<close>

definition replicas_getOrCreate ::
  "nat \<Rightarrow> nat \<Rightarrow> jsstring \<Rightarrow> tokenInfo \<Rightarrow> replicaInfo list
    \<Rightarrow> replicaStatus \<times> replicaInfo \<times> replicaInfo list" where
  "replicas_getOrCreate nw thr rid info rs =
     (case replicas_get rs rid of
        None \<Rightarrow>
          (let r = \<lparr> r_id = rid, r_clientId = tok_userId info, r_type = tok_type info,
                     r_ackedLogicalTime = None, r_lastSeen = nw \<rparr>
           in (New, r, rs @ [r]))
      | Some r \<Rightarrow> (if isTruant nw thr r then (Truant, r, rs) else (Existing, r, rs)))"

text \<open>
  Modelled from the spec: \<open>updateAcknowledged(replicaId, timestamp)\<close> sets
  \<open>ackedTimestamp = max(current, timestamp)\<close>; an unknown replica has no row to update.
\<close>

definition ackMax :: "jsstring option \<Rightarrow> jsstring \<Rightarrow> jsstring" where
  "ackMax cur t = (case cur of None \<Rightarrow> t | Some c \<Rightarrow> max c t)"

text \<open>Modelled from the spec: \<open>updateAcknowledged\<close>, on the row of the replica.\<close>

definition replicas_updateAcknowledged ::
  "jsstring \<Rightarrow> jsstring \<Rightarrow> replicaInfo list \<Rightarrow> replicaInfo list" where
  "replicas_updateAcknowledged rid t rs =
     map (\<lambda>r. if r_id r = rid
               then r\<lparr> r_ackedLogicalTime := Some (ackMax (r_ackedLogicalTime r) t) \<rparr>
               else r) rs"

text \<open>Modelled from the spec: \<open>updateLastSeen(replicaId)\<close> sets \<open>lastSeen\<close> to the current time.\<close>

definition replicas_updateLastSeen ::
  "nat \<Rightarrow> jsstring \<Rightarrow> replicaInfo list \<Rightarrow> replicaInfo list" where
  "replicas_updateLastSeen nw rid rs =
     map (\<lambda>r. if r_id r = rid then r\<lparr> r_lastSeen := nw \<rparr> else r) rs"

text \<open>Modelled from the spec: \<open>delete(replicaId)\<close> forgets the registry entry of the replica.\<close>

definition replicas_delete :: "jsstring \<Rightarrow> replicaInfo list \<Rightarrow> replicaInfo list" where
  "replicas_delete rid rs = filter (\<lambda>r. r_id r \<noteq> rid) rs"

text \<open>
  Modelled from the spec: \<open>getGlobalAck(activeOverride?)\<close> is the minimum
  \<open>ackedTimestamp\<close> across all non-truant, non-read-only replicas, \<open>activeOverride\<close>
  adding currently-connected replicas regardless of truancy (and, by the comment at its
  call in \<open>rebase\<close>, regardless of their type); it is null if any qualifying replica
  has never acknowledged anything (and when no replica qualifies, there being no minimum).
\<close>

definition qualifies :: "jsstring list \<Rightarrow> nat \<Rightarrow> nat \<Rightarrow> replicaInfo \<Rightarrow> bool" where
  "qualifies active nw thr r =
     (r_id r \<in> set active \<or> (\<not> isTruant nw thr r \<and> \<not> isReadOnly (r_type r)))"

text \<open>Modelled from the spec: the minimum of the acknowledged timestamps of a list of replicas,
  null when one of them is null or the list is empty.\<close>

fun minAcked :: "replicaInfo list \<Rightarrow> jsstring option" where
  "minAcked [] = None"
| "minAcked [r] = r_ackedLogicalTime r"
| "minAcked (r # rs) =
     (case r_ackedLogicalTime r of
        None \<Rightarrow> None
      | Some a \<Rightarrow> (case minAcked rs of None \<Rightarrow> None | Some b \<Rightarrow> Some (min a b)))"

text \<open>Modelled from the spec: \<open>getGlobalAck(activeOverride?)\<close>, the minimum over the qualifying
  replicas.\<close>

definition replicas_getGlobalAck ::
  "jsstring list \<Rightarrow> nat \<Rightarrow> nat \<Rightarrow> replicaInfo list \<Rightarrow> jsstring option" where
  "replicas_getGlobalAck active nw thr rs = minAcked (filter (qualifies active nw thr) rs)"

section \<open>OperationHistory\<close>

text \<open>
  Modelled from the spec: the class \<open>OperationHistory\<close> is not among the sources; its
  operations follow section 4.1 of the specification. \<open>insertAll\<close> is idempotent on
  \<open>(oid, timestamp)\<close>, the primary key of the table.
\<close>

definition sameKey :: "operationHistoryItem \<Rightarrow> operationHistoryItem \<Rightarrow> bool" where
  "sameKey a b = (h_oid a = h_oid b \<and> h_timestamp a = h_timestamp b)"

text \<open>Modelled from the spec: the row stored for an operation of the replica \<open>replicaId\<close>.\<close>

definition toHistoryItem :: "jsstring \<Rightarrow> operation \<Rightarrow> operationHistoryItem" where
  "toHistoryItem rid p =
     \<lparr> h_oid = op_oid p, h_timestamp = op_timestamp p, h_data = op_data p,
       h_replicaId = rid \<rparr>"

text \<open>Modelled from the spec: the insertion of one row; a duplicate \<open>(oid, timestamp)\<close> is
  silently ignored.\<close>

definition operations_insert ::
  "operationHistoryItem list \<Rightarrow> operationHistoryItem \<Rightarrow> operationHistoryItem list" where
  "operations_insert log h = (if list_ex (sameKey h) log then log else log @ [h])"

text \<open>Modelled from the spec: \<open>insertAll(replicaId, ops[])\<close>, idempotent on \<open>(oid, timestamp)\<close>.\<close>

definition operations_insertAll ::
  "jsstring \<Rightarrow> operation list \<Rightarrow> operationHistoryItem list \<Rightarrow> operationHistoryItem list" where
  "operations_insertAll rid ps log = foldl operations_insert log (map (toHistoryItem rid) ps)"

text \<open>
  Modelled from the spec: \<open>getAfter(timestamp | null)\<close> returns all operations strictly
  greater than the argument (all of them if null), \<open>getBefore(timestamp)\<close> all operations
  with a smaller timestamp; both ordered by timestamp ascending.
\<close>

definition operations_getAfter ::
  "jsstring option \<Rightarrow> operationHistoryItem list \<Rightarrow> operationHistoryItem list" where
  "operations_getAfter since log =
     sort_key h_timestamp
       (case since of None \<Rightarrow> log | Some t \<Rightarrow> filter (\<lambda>h. t < h_timestamp h) log)"

text \<open>Modelled from the spec: \<open>getBefore(timestamp)\<close>, all operations with a smaller timestamp,
  ordered ascending.\<close>

definition operations_getBefore ::
  "jsstring \<Rightarrow> operationHistoryItem list \<Rightarrow> operationHistoryItem list" where
  "operations_getBefore t log = sort_key h_timestamp (filter (\<lambda>h. h_timestamp h < t) log)"

text \<open>Modelled from the spec: \<open>drop(ops)\<close> removes a specific set of operations.\<close>

definition operations_dropAll ::
  "operationHistoryItem list \<Rightarrow> operationHistoryItem list \<Rightarrow> operationHistoryItem list" where
  "operations_dropAll ds log = filter (\<lambda>h. \<not> list_ex (sameKey h) ds) log"

section \<open>Baselines\<close>

text \<open>
  Modelled from the spec: the class \<open>Baselines\<close> is not among the sources; its
  operations follow section 4.2 of the specification (at most one baseline per OID).
\<close>

definition baselines_get :: "documentBaseline list \<Rightarrow> jsstring \<Rightarrow> documentBaseline option" where
  "baselines_get bs x = find (\<lambda>b. bl_oid b = x) bs"

text \<open>Modelled from the spec: \<open>upsert(baseline)\<close> replaces the baseline of the OID or adds it.\<close>

definition baselines_upsert ::
  "documentBaseline list \<Rightarrow> documentBaseline \<Rightarrow> documentBaseline list" where
  "baselines_upsert bs b =
     (if list_ex (\<lambda>c. bl_oid c = bl_oid b) bs
      then map (\<lambda>c. if bl_oid c = bl_oid b then b else c) bs
      else bs @ [b])"

text \<open>Modelled from the spec: \<open>insertAll(baselines)\<close> persists each baseline of the list (by
  \<open>upsert\<close>, there being at most one baseline per OID).\<close>

definition baselines_insertAll ::
  "documentBaseline list \<Rightarrow> documentBaseline list \<Rightarrow> documentBaseline list" where
  "baselines_insertAll new bs = foldl baselines_upsert bs new"

text \<open>Modelled from the spec: \<open>getAllAfter(timestamp | null)\<close>, the baselines newer than the
  timestamp, all of them if null.\<close>

definition baselines_getAllAfter ::
  "jsstring option \<Rightarrow> documentBaseline list \<Rightarrow> documentBaseline list" where
  "baselines_getAllAfter since bs =
     (case since of None \<Rightarrow> bs | Some t \<Rightarrow> filter (\<lambda>b. t < bl_timestamp b) bs)"

text \<open>
  Modelled from the spec: \<open>applyOperations(oid, ops)\<close> computes the new snapshot by
  applying \<open>ops\<close> (HLC-ordered) to the existing baseline (or empty if none) and writes a
  new baseline whose timestamp equals the maximum op timestamp. The function
  \<open>applyPatch\<close> of the common package is not among the sources and is a parameter.
\<close>

definition priorSnapshot :: "documentBaseline list \<Rightarrow> jsstring \<Rightarrow> json" where
  "priorSnapshot bs x = (case baselines_get bs x of None \<Rightarrow> JObj [] | Some b \<Rightarrow> bl_snapshot b)"

text \<open>Modelled from the spec: the maximum timestamp of a list of operations.\<close>

definition maxTimestamp :: "operationHistoryItem list \<Rightarrow> jsstring" where
  "maxTimestamp hs = foldl max [] (map h_timestamp hs)"

text \<open>Modelled from the spec: \<open>applyOperations(oid, ops)\<close> as described above; the caller passes
  at least one operation.\<close>

definition baselines_applyOperations ::
  "(json \<Rightarrow> patch \<Rightarrow> json) \<Rightarrow> jsstring \<Rightarrow> operationHistoryItem list
    \<Rightarrow> documentBaseline list \<Rightarrow> documentBaseline list" where
  "baselines_applyOperations applyPatch x hs bs =
     (if hs = [] then bs
      else baselines_upsert bs
             \<lparr> bl_oid = x,
               bl_snapshot = foldl applyPatch (priorSnapshot bs x) (map h_data hs),
               bl_timestamp = maxTimestamp hs \<rparr>)"

section \<open>Presence\<close>

text \<open>
  Modelled from the spec: the class \<open>Presence\<close> is not among the sources; it is an
  in-memory map keyed by \<open>userId\<close>.
\<close>

fun presences_set ::
  "jsstring \<Rightarrow> presenceEntry \<Rightarrow> (jsstring \<times> presenceEntry) list
    \<Rightarrow> (jsstring \<times> presenceEntry) list" where
  "presences_set u e [] = [(u, e)]"
| "presences_set u e ((k, v) # rest) =
     (if k = u then (k, e) # rest else (k, v) # presences_set u e rest)"

section \<open>ServerLibrary\<close>

definition send :: "jsstring \<Rightarrow> serverMessage \<Rightarrow> serverLibrary \<Rightarrow> serverLibrary" where
  "send clientKey m s = s\<lparr> outbox := outbox s @ [Send clientKey m] \<rparr>"

definition broadcast :: "serverMessage \<Rightarrow> jsstring list \<Rightarrow> serverLibrary \<Rightarrow> serverLibrary" where
  "broadcast m omit s = s\<lparr> outbox := outbox s @ [Broadcast m omit] \<rparr>"

text \<open>\<open>this.replicas.getGlobalAck(active)\<close> on the current state.\<close>

definition getGlobalAck :: "jsstring list \<Rightarrow> serverLibrary \<Rightarrow> jsstring option" where
  "getGlobalAck active s =
     replicas_getGlobalAck active (now s) (replicaTruancyMinutes s) (replicas s)"

text \<open>
  \<open>validateReplicaAccess\<close>: if the replica exists, its user (\<open>clientId\<close>) must match the
  user making the request; otherwise an \<open>Error\<close> is thrown.
\<close>

definition validateReplicaAccess :: "serverLibrary \<Rightarrow> jsstring \<Rightarrow> tokenInfo \<Rightarrow> error option" where
  "validateReplicaAccess s replicaId info =
     (case replicas_get (replicas s) replicaId of
        None \<Rightarrow> None
      | Some replica \<Rightarrow>
          (if r_clientId replica \<noteq> tok_userId info
           then Some (ReplicaNotOwned replicaId (tok_userId info))
           else None))"

definition hasWriteAccess :: "tokenInfo \<Rightarrow> bool" where
  "hasWriteAccess info = (tok_type info \<noteq> ReadOnlyPull \<and> tok_type info \<noteq> ReadOnlyRealtime)"

definition removeExtraOperationData :: "operationHistoryItem \<Rightarrow> operation" where
  "removeExtraOperationData h =
     \<lparr> op_oid = h_oid h, op_timestamp = h_timestamp h, op_data = h_data h \<rparr>"

text \<open>
  \<open>enqueueRebase\<close>: schedules \<open>this.rebase\<close> with \<open>setTimeout(_, 0)\<close> unless
  \<open>pendingRebaseTimeout\<close> is set. The value \<open>setTimeout\<close> returns is discarded.
\<close>

definition enqueueRebase :: "serverLibrary \<Rightarrow> serverLibrary" where
  "enqueueRebase s =
     (if pendingRebaseTimeout s = None then s\<lparr> timers := Suc (timers s) \<rparr> else s)"

definition rebroadcastOperations ::
  "jsstring \<Rightarrow> jsstring \<Rightarrow> operation list \<Rightarrow> documentBaseline list
    \<Rightarrow> serverLibrary \<Rightarrow> serverLibrary" where
  "rebroadcastOperations clientKey replicaId ops bls s =
     (if ops = [] \<and> bls = [] then s
      else broadcast (OpRe ops bls replicaId (getGlobalAck [] s)) [clientKey] s)"

definition handleOperation ::
  "jsstring \<Rightarrow> operation list \<Rightarrow> jsstring \<Rightarrow> tokenInfo \<Rightarrow> serverLibrary \<Rightarrow> serverLibrary" where
  "handleOperation replicaId ops clientKey info s =
     (if \<not> hasWriteAccess info then send clientKey Forbidden s
      else
        (let s1 = s\<lparr> operations := operations_insertAll replicaId ops (operations s) \<rparr>;
             s2 = enqueueRebase s1
         in rebroadcastOperations clientKey replicaId ops [] s2))"

text \<open>The local variables \<open>status\<close>, \<open>clientReplicaInfo\<close> and \<open>changesSince\<close> of \<open>handleSync\<close>.\<close>

definition syncRegistry ::
  "jsstring \<Rightarrow> bool \<Rightarrow> tokenInfo \<Rightarrow> serverLibrary
    \<Rightarrow> replicaStatus \<times> replicaInfo \<times> replicaInfo list" where
  "syncRegistry replicaId resyncAll info s =
     replicas_getOrCreate (now s) (replicaTruancyMinutes s) replicaId info
       (if resyncAll then replicas_delete replicaId (replicas s) else replicas s)"

definition syncStatus :: "jsstring \<Rightarrow> bool \<Rightarrow> tokenInfo \<Rightarrow> serverLibrary \<Rightarrow> replicaStatus" where
  "syncStatus replicaId resyncAll info s = fst (syncRegistry replicaId resyncAll info s)"

definition syncChangesSince ::
  "jsstring \<Rightarrow> bool \<Rightarrow> tokenInfo \<Rightarrow> serverLibrary \<Rightarrow> jsstring option" where
  "syncChangesSince replicaId resyncAll info s =
     (case syncRegistry replicaId resyncAll info s of
        (status, clientReplicaInfo, _) \<Rightarrow>
          (if status = Existing then r_ackedLogicalTime clientReplicaInfo else None))"

definition handleSync ::
  "jsstring \<Rightarrow> bool \<Rightarrow> jsstring \<Rightarrow> tokenInfo \<Rightarrow> serverLibrary \<Rightarrow> serverLibrary" where
  "handleSync replicaId resyncAll clientKey info s =
     (case syncRegistry replicaId resyncAll info s of
        (status, clientReplicaInfo, rs) \<Rightarrow>
          (let s1 = s\<lparr> replicas := rs \<rparr>;
               changesSince = syncChangesSince replicaId resyncAll info s;
               ops = operations_getAfter changesSince (operations s1);
               bls = baselines_getAllAfter changesSince (baselines s1);
               replicaShouldReset = (resyncAll \<or> status \<noteq> Existing);
               isEmptyLibrary = (changesSince = None \<and> ops = [] \<and> bls = [])
           in send clientKey
                (SyncResp (map removeExtraOperationData ops) bls
                   (if truthy (r_ackedLogicalTime clientReplicaInfo)
                    then r_ackedLogicalTime clientReplicaInfo else None)
                   (getGlobalAck [] s1)
                   (presences s1)
                   (replicaShouldReset \<and> \<not> isEmptyLibrary))
                s1))"

definition updateAcknowledged ::
  "jsstring \<Rightarrow> jsstring \<Rightarrow> tokenInfo \<Rightarrow> serverLibrary \<Rightarrow> serverLibrary" where
  "updateAcknowledged replicaId t info s =
     (let priorGlobalAck = getGlobalAck [] s;
          s1 = s\<lparr> replicas := replicas_updateAcknowledged replicaId t (replicas s) \<rparr>;
          newGlobalAck = getGlobalAck [] s1
      in case newGlobalAck of
           None \<Rightarrow> s1
         | Some g \<Rightarrow>
             (if g \<noteq> [] \<and> priorGlobalAck \<noteq> newGlobalAck
              then broadcast (GlobalAck g) [] s1 else s1))"

definition handleSyncStep2 ::
  "jsstring \<Rightarrow> operation list \<Rightarrow> documentBaseline list \<Rightarrow> jsstring \<Rightarrow> jsstring
    \<Rightarrow> tokenInfo \<Rightarrow> serverLibrary \<Rightarrow> serverLibrary" where
  "handleSyncStep2 replicaId ops bls t clientKey info s =
     (if \<not> hasWriteAccess info then send clientKey Forbidden s
      else
        (let s1 = s\<lparr> baselines := baselines_insertAll bls (baselines s) \<rparr>;
             s2 = s1\<lparr> operations := operations_insertAll replicaId ops (operations s1) \<rparr>;
             s3 = rebroadcastOperations clientKey replicaId ops bls s2
         in if ops \<noteq> []
            then updateAcknowledged replicaId (op_timestamp (last ops)) info s3
            else updateAcknowledged replicaId t info s3))"

definition handleAck :: "jsstring \<Rightarrow> jsstring \<Rightarrow> jsstring \<Rightarrow> tokenInfo \<Rightarrow> serverLibrary \<Rightarrow> serverLibrary" where
  "handleAck replicaId t clientKey info s = updateAcknowledged replicaId t info s"

definition handleHeartbeat :: "jsstring \<Rightarrow> serverLibrary \<Rightarrow> serverLibrary" where
  "handleHeartbeat clientKey s = send clientKey HeartbeatResponse s"

text \<open>The \<open>UserProfileLoader\<close> is not among the sources; it is the parameter \<open>profiles\<close>.\<close>

definition handlePresenceUpdate ::
  "(jsstring \<Rightarrow> json) \<Rightarrow> jsstring \<Rightarrow> json \<Rightarrow> jsstring \<Rightarrow> tokenInfo
    \<Rightarrow> serverLibrary \<Rightarrow> serverLibrary" where
  "handlePresenceUpdate profiles replicaId presence clientKey info s =
     (let e = \<lparr> p_presence = presence, p_replicaId = replicaId,
                 p_profile = profiles (tok_userId info), p_id = tok_userId info \<rparr>;
          s1 = s\<lparr> presences := presences_set (tok_userId info) e (presences s) \<rparr>
      in broadcast (PresenceChanged replicaId e) [] s1)"

fun dispatch ::
  "(jsstring \<Rightarrow> json) \<Rightarrow> clientMessage \<Rightarrow> jsstring \<Rightarrow> tokenInfo
    \<Rightarrow> serverLibrary \<Rightarrow> serverLibrary" where
  "dispatch profiles (OpMsg r ops) clientKey info s = handleOperation r ops clientKey info s"
| "dispatch profiles (SyncMsg r resyncAll) clientKey info s = handleSync r resyncAll clientKey info s"
| "dispatch profiles (SyncStep2Msg r ops bls t) clientKey info s =
     handleSyncStep2 r ops bls t clientKey info s"
| "dispatch profiles (AckMsg r t) clientKey info s = handleAck r t clientKey info s"
| "dispatch profiles (HeartbeatMsg r) clientKey info s = handleHeartbeat clientKey s"
| "dispatch profiles (PresenceUpdateMsg r p) clientKey info s =
     handlePresenceUpdate profiles r p clientKey info s"
| "dispatch profiles (UnknownMsg r) clientKey info s = s"

text \<open>
  \<open>receive\<close>: the ownership check comes first and throws before anything is done; then
  the message is dispatched on its type and the replica's \<open>lastSeen\<close> is updated.
\<close>

definition receive ::
  "(jsstring \<Rightarrow> json) \<Rightarrow> clientMessage \<Rightarrow> jsstring \<Rightarrow> tokenInfo
    \<Rightarrow> serverLibrary \<Rightarrow> outcome" where
  "receive profiles message clientKey info s =
     (case validateReplicaAccess s (msg_replicaId message) info of
        Some e \<Rightarrow> Raised e s
      | None \<Rightarrow>
          (let s1 = dispatch profiles message clientKey info s
           in Returned
                (s1\<lparr> replicas :=
                       replicas_updateLastSeen (now s1) (msg_replicaId message) (replicas s1) \<rparr>)))"

subsection \<open>Rebase\<close>

text \<open>
  \<open>opsToApply\<close> is a \<open>Record<string, OperationHistoryItem[]>\<close>: keys in insertion order
  (an OID contains \<open>/\<close>, so it is never an integer-like key nor a name inherited from
  \<open>Object.prototype\<close>), each with the operations pushed to it; \<open>hardStops\<close> is the set
  of OIDs marked.
\<close>

fun pushOp ::
  "(jsstring \<times> operationHistoryItem list) list \<Rightarrow> operationHistoryItem
    \<Rightarrow> (jsstring \<times> operationHistoryItem list) list" where
  "pushOp [] h = [(h_oid h, [h])]"
| "pushOp ((k, hs) # rest) h =
     (if k = h_oid h then (k, hs @ [h]) # rest else (k, hs) # pushOp rest h)"

fun bucketOps ::
  "jsstring \<Rightarrow> operationHistoryItem list
    \<Rightarrow> (jsstring \<times> operationHistoryItem list) list \<Rightarrow> jsstring list
    \<Rightarrow> (jsstring \<times> operationHistoryItem list) list" where
  "bucketOps globalAck [] opsToApply hardStops = opsToApply"
| "bucketOps globalAck (h # hs) opsToApply hardStops =
     (let isBeforeGlobalAck = (h_timestamp h < globalAck)
      in if h_oid h \<notin> set hardStops \<and> isBeforeGlobalAck
         then bucketOps globalAck hs (pushOp opsToApply h) hardStops
         else bucketOps globalAck hs opsToApply (h_oid h # hardStops))"

definition rebaseDocument ::
  "(json \<Rightarrow> patch \<Rightarrow> json) \<Rightarrow> serverLibrary \<Rightarrow> jsstring \<times> operationHistoryItem list
    \<Rightarrow> serverLibrary" where
  "rebaseDocument applyPatch s b =
     (let s1 = s\<lparr> baselines := baselines_applyOperations applyPatch (fst b) (snd b) (baselines s) \<rparr>
      in s1\<lparr> operations := operations_dropAll (snd b) (operations s1) \<rparr>)"

definition rebase :: "(json \<Rightarrow> patch \<Rightarrow> json) \<Rightarrow> serverLibrary \<Rightarrow> serverLibrary" where
  "rebase applyPatch s =
     (let activeReplicaIds = map (\<lambda>p. p_replicaId (snd p)) (presences s)
      in case getGlobalAck activeReplicaIds s of
           None \<Rightarrow> s
         | Some globalAck \<Rightarrow>
             (if globalAck = [] then s
              else
                (let ops = operations_getBefore globalAck (operations s);
                     opsToApply = bucketOps globalAck ops [] [];
                     s1 = foldl (rebaseDocument applyPatch) s opsToApply
                 in if opsToApply \<noteq> [] then broadcast (GlobalAck globalAck) [] s1 else s1)))"

text \<open>The event loop runs one scheduled \<open>this.rebase\<close> callback.\<close>

definition runRebaseTimer :: "(json \<Rightarrow> patch \<Rightarrow> json) \<Rightarrow> serverLibrary \<Rightarrow> serverLibrary" where
  "runRebaseTimer applyPatch s =
     (if timers s = 0 then s else rebase applyPatch (s\<lparr> timers := timers s - 1 \<rparr>))"

subsection \<open>Storage failures\<close>

text \<open>
  Every write to the database can throw (an I/O error of the storage). The handlers that
  write are given again with the writes numbered in execution order from 0, the write
  numbered \<open>failAt\<close> throwing before it changes anything; every other statement is as
  above. \<open>db.transaction(run)\<close> rolls the tables back when \<open>run\<close> throws, and rethrows.
\<close>

fun andThen :: "outcome \<Rightarrow> (serverLibrary \<Rightarrow> outcome) \<Rightarrow> outcome" where
  "andThen (Returned s) f = f s"
| "andThen (Raised e s) f = Raised e s"

definition storageWrite ::
  "nat \<Rightarrow> nat \<Rightarrow> (serverLibrary \<Rightarrow> serverLibrary) \<Rightarrow> serverLibrary \<Rightarrow> outcome" where
  "storageWrite failAt i w s = (if failAt = i then Raised StorageFailure s else Returned (w s))"

definition db_transaction :: "(serverLibrary \<Rightarrow> outcome) \<Rightarrow> serverLibrary \<Rightarrow> outcome" where
  "db_transaction run s =
     (case run s of
        Returned s' \<Rightarrow> Returned s'
      | Raised e s' \<Rightarrow>
          Raised e (s'\<lparr> replicas := replicas s, operations := operations s,
                         baselines := baselines s \<rparr>))"

definition handleOperation_failing ::
  "nat \<Rightarrow> jsstring \<Rightarrow> operation list \<Rightarrow> jsstring \<Rightarrow> tokenInfo \<Rightarrow> serverLibrary \<Rightarrow> outcome" where
  "handleOperation_failing failAt replicaId ops clientKey info s =
     (if \<not> hasWriteAccess info then Returned (send clientKey Forbidden s)
      else
        andThen
          (db_transaction
             (storageWrite failAt 0
                (\<lambda>s. s\<lparr> operations := operations_insertAll replicaId ops (operations s) \<rparr>)) s)
          (\<lambda>s1. Returned (rebroadcastOperations clientKey replicaId ops [] (enqueueRebase s1))))"

definition updateAcknowledged_failing ::
  "nat \<Rightarrow> nat \<Rightarrow> jsstring \<Rightarrow> jsstring \<Rightarrow> tokenInfo \<Rightarrow> serverLibrary \<Rightarrow> outcome" where
  "updateAcknowledged_failing failAt i replicaId t info s =
     (let priorGlobalAck = getGlobalAck [] s
      in andThen
           (storageWrite failAt i
              (\<lambda>s. s\<lparr> replicas := replicas_updateAcknowledged replicaId t (replicas s) \<rparr>) s)
           (\<lambda>s1. let newGlobalAck = getGlobalAck [] s1
                 in case newGlobalAck of
                      None \<Rightarrow> Returned s1
                    | Some g \<Rightarrow>
                        (if g \<noteq> [] \<and> priorGlobalAck \<noteq> newGlobalAck
                         then Returned (broadcast (GlobalAck g) [] s1) else Returned s1)))"

definition handleSyncStep2_failing ::
  "nat \<Rightarrow> jsstring \<Rightarrow> operation list \<Rightarrow> documentBaseline list \<Rightarrow> jsstring \<Rightarrow> jsstring
    \<Rightarrow> tokenInfo \<Rightarrow> serverLibrary \<Rightarrow> outcome" where
  "handleSyncStep2_failing failAt replicaId ops bls t clientKey info s =
     (if \<not> hasWriteAccess info then Returned (send clientKey Forbidden s)
      else
        andThen
          (storageWrite failAt 0
             (\<lambda>s. s\<lparr> baselines := baselines_insertAll bls (baselines s) \<rparr>) s)
          (\<lambda>s1. andThen
             (storageWrite failAt 1
                (\<lambda>s. s\<lparr> operations := operations_insertAll replicaId ops (operations s) \<rparr>) s1)
             (\<lambda>s2. let s3 = rebroadcastOperations clientKey replicaId ops bls s2
                   in if ops \<noteq> []
                      then updateAcknowledged_failing failAt 2 replicaId
                             (op_timestamp (last ops)) info s3
                      else updateAcknowledged_failing failAt 2 replicaId t info s3)))"

definition rebaseDocument_failing ::
  "nat \<Rightarrow> nat \<Rightarrow> (json \<Rightarrow> patch \<Rightarrow> json) \<Rightarrow> serverLibrary
    \<Rightarrow> jsstring \<times> operationHistoryItem list \<Rightarrow> outcome" where
  "rebaseDocument_failing failAt i applyPatch s b =
     andThen
       (storageWrite failAt i
          (\<lambda>s. s\<lparr> baselines :=
                     baselines_applyOperations applyPatch (fst b) (snd b) (baselines s) \<rparr>) s)
       (\<lambda>s1. storageWrite failAt (Suc i)
                (\<lambda>s. s\<lparr> operations := operations_dropAll (snd b) (operations s) \<rparr>) s1)"

fun rebaseDocuments_failing ::
  "nat \<Rightarrow> nat \<Rightarrow> (json \<Rightarrow> patch \<Rightarrow> json) \<Rightarrow> serverLibrary
    \<Rightarrow> (jsstring \<times> operationHistoryItem list) list \<Rightarrow> outcome" where
  "rebaseDocuments_failing failAt i applyPatch s [] = Returned s"
| "rebaseDocuments_failing failAt i applyPatch s (b # bs) =
     andThen (rebaseDocument_failing failAt i applyPatch s b)
       (\<lambda>s1. rebaseDocuments_failing failAt (Suc (Suc i)) applyPatch s1 bs)"

definition rebase_failing ::
  "nat \<Rightarrow> (json \<Rightarrow> patch \<Rightarrow> json) \<Rightarrow> serverLibrary \<Rightarrow> outcome" where
  "rebase_failing failAt applyPatch s =
     (let activeReplicaIds = map (\<lambda>p. p_replicaId (snd p)) (presences s)
      in case getGlobalAck activeReplicaIds s of
           None \<Rightarrow> Returned s
         | Some globalAck \<Rightarrow>
             (if globalAck = [] then Returned s
              else
                (let ops = operations_getBefore globalAck (operations s);
                     opsToApply = bucketOps globalAck ops [] []
                 in andThen (rebaseDocuments_failing failAt 0 applyPatch s opsToApply)
                      (\<lambda>s1. if opsToApply \<noteq> []
                            then Returned (broadcast (GlobalAck globalAck) [] s1)
                            else Returned s1))))"

text \<open>What of a state is persisted: the three tables.\<close>

definition persisted ::
  "serverLibrary \<Rightarrow> replicaInfo list \<times> operationHistoryItem list \<times> documentBaseline list" where
  "persisted s = (replicas s, operations s, baselines s)"

section \<open>Superseding of unsent operations (client)\<close>

text \<open>
  Modelled from the spec: the client's operation buffer is not among the sources (only
  the test \<open>superseding.test.ts\<close> is); the rule follows section 4.5.1 of the
  specification. A later operation \<open>b\<close> supersedes an earlier operation \<open>a\<close> of the
  buffer on the same OID when \<open>b\<close> is a \<open>set\<close> and \<open>a\<close> a \<open>set\<close> of the same field, when
  \<open>b\<close> is a \<open>delete\<close> and \<open>a\<close> a \<open>delete\<close> or a \<open>set\<close> of the same field, or when \<open>b\<close>
  is an \<open>initialize\<close>; list mutations supersede nothing. A superseded operation is
  dropped, the later one kept.
\<close>

definition supersedes :: "operation \<Rightarrow> operation \<Rightarrow> bool" where
  "supersedes b a =
     (op_oid a = op_oid b \<and>
      (case op_data b of
         Set f _ \<Rightarrow> (case op_data a of Set g _ \<Rightarrow> g = f | _ \<Rightarrow> False)
       | Delete f \<Rightarrow> (case op_data a of Set g _ \<Rightarrow> g = f | Delete g \<Rightarrow> g = f | _ \<Rightarrow> False)
       | Initialize _ \<Rightarrow> True
       | _ \<Rightarrow> False))"

text \<open>Modelled from the spec: the buffer after superseding; an operation stays when no later
  operation of the buffer supersedes it.\<close>

fun supersedeOperations :: "operation list \<Rightarrow> operation list" where
  "supersedeOperations [] = []"
| "supersedeOperations (a # rest) =
     (if list_ex (\<lambda>b. supersedes b a) rest then supersedeOperations rest
      else a # supersedeOperations rest)"

text \<open>The operations for a pair \<open>(oid, field)\<close>: the \<open>set\<close>s and \<open>delete\<close>s of that field.\<close>

definition targets :: "jsstring \<Rightarrow> jsstring \<Rightarrow> operation \<Rightarrow> bool" where
  "targets x f p =
     (op_oid p = x \<and>
      (case op_data p of Set g _ \<Rightarrow> g = f | Delete g \<Rightarrow> g = f | _ \<Rightarrow> False))"

definition isSet :: "operation \<Rightarrow> bool" where
  "isSet p = (case op_data p of Set _ _ \<Rightarrow> True | _ \<Rightarrow> False)"

definition isInitialize :: "operation \<Rightarrow> bool" where
  "isInitialize p = (case op_data p of Initialize _ \<Rightarrow> True | _ \<Rightarrow> False)"

section \<open>Object identifiers\<close>

text \<open>
  Modelled from the spec: \<open>oids.ts\<close> is not among the sources (only \<open>oids.test.ts\<close>
  is). A root OID is \<open><collection>/<rootId>\<close>, a sub-object OID
  \<open><collection>/<rootId>.<fieldPath>:<localId>\<close>, the field path being the keys from the
  root joined by dots with \<open>#\<close> for the items of an array, as the test expects
  (\<open>test/a.qux.#.grault:5\<close>). \<open>getOidRange\<close> of a root is the pair of the root and the
  root followed by \<open>:\<close> and the code unit \<open>0xFFFF\<close>.
\<close>

definition createRootOid :: "jsstring \<Rightarrow> jsstring \<Rightarrow> jsstring" where
  "createRootOid collection rootId = collection @ js ''/'' @ rootId"

text \<open>Modelled from the spec: the field path, its keys joined by dots.\<close>

fun joinPath :: "jsstring list \<Rightarrow> jsstring" where
  "joinPath [] = []"
| "joinPath [k] = k"
| "joinPath (k # ks) = k @ js ''.'' @ joinPath ks"

text \<open>Modelled from the spec: the OID of a sub-object, \<open><root>.<fieldPath>:<localId>\<close>.\<close>

definition createSubOid :: "jsstring \<Rightarrow> jsstring list \<Rightarrow> jsstring \<Rightarrow> jsstring" where
  "createSubOid root keyPath subId = root @ js ''.'' @ joinPath keyPath @ js '':'' @ subId"

text \<open>Modelled from the spec: \<open>getOidRange\<close> of a root OID, as \<open>oids.test.ts\<close> expects it.\<close>

definition getOidRange :: "jsstring \<Rightarrow> jsstring \<times> jsstring" where
  "getOidRange root = (root, root @ [0x3A, 0xFFFF])"

text \<open>The helper \<open>isWithin\<close> of the test: \<open>oid >= start && oid <= end\<close>.\<close>

definition isWithin :: "jsstring \<Rightarrow> jsstring \<times> jsstring \<Rightarrow> bool" where
  "isWithin x bounds = (fst bounds \<le> x \<and> x \<le> snd bounds)"

text \<open>
  Modelled from the spec: \<open>assignOidsToAllSubObjects(obj, createSubId)\<close> gives an OID to
  every nested object and array, depth first in key order, drawing one sub-id for each
  from \<open>createSubId\<close> (its \<open>n\<close>-th call returns \<open>createSubId n\<close>). The model returns the
  OIDs assigned, in the order of assignment, and the number of sub-ids drawn.
\<close>

fun assignValue ::
    "(nat \<Rightarrow> jsstring) \<Rightarrow> jsstring \<Rightarrow> jsstring list \<Rightarrow> json \<Rightarrow> nat \<Rightarrow> jsstring list \<times> nat"
  and assignFields ::
    "(nat \<Rightarrow> jsstring) \<Rightarrow> jsstring \<Rightarrow> jsstring list \<Rightarrow> (jsstring \<times> json) list \<Rightarrow> nat
      \<Rightarrow> jsstring list \<times> nat"
  and assignItems ::
    "(nat \<Rightarrow> jsstring) \<Rightarrow> jsstring \<Rightarrow> jsstring list \<Rightarrow> json list \<Rightarrow> nat \<Rightarrow> jsstring list \<times> nat"
where
  "assignValue createSubId root keyPath (JObj fs) n =
     (case assignFields createSubId root keyPath fs (Suc n) of
        (oids, n') \<Rightarrow> (createSubOid root keyPath (createSubId n) # oids, n'))"
| "assignValue createSubId root keyPath (JArr xs) n =
     (case assignItems createSubId root (keyPath @ [js ''#'']) xs (Suc n) of
        (oids, n') \<Rightarrow> (createSubOid root keyPath (createSubId n) # oids, n'))"
| "assignValue createSubId root keyPath JNull n = ([], n)"
| "assignValue createSubId root keyPath (JPrim v) n = ([], n)"
| "assignValue createSubId root keyPath (JRef v) n = ([], n)"
| "assignFields createSubId root keyPath [] n = ([], n)"
| "assignFields createSubId root keyPath (kv # rest) n =
     (case assignValue createSubId root (keyPath @ [fst kv]) (snd kv) n of
        (oids1, n1) \<Rightarrow>
          (case assignFields createSubId root keyPath rest n1 of
             (oids2, n2) \<Rightarrow> (oids1 @ oids2, n2)))"
| "assignItems createSubId root keyPath [] n = ([], n)"
| "assignItems createSubId root keyPath (v # rest) n =
     (case assignValue createSubId root keyPath v n of
        (oids1, n1) \<Rightarrow>
          (case assignItems createSubId root keyPath rest n1 of
             (oids2, n2) \<Rightarrow> (oids1 @ oids2, n2)))"

text \<open>Modelled from the spec: \<open>assignOidsToAllSubObjects\<close> on a root object or array; the root
  itself has its OID already.\<close>

definition assignOidsToAllSubObjects ::
  "(nat \<Rightarrow> jsstring) \<Rightarrow> jsstring \<Rightarrow> json \<Rightarrow> jsstring list" where
  "assignOidsToAllSubObjects createSubId root obj =
     (case obj of
        JObj fs \<Rightarrow> fst (assignFields createSubId root [] fs 0)
      | JArr xs \<Rightarrow> fst (assignItems createSubId root [js ''#''] xs 0)
      | _ \<Rightarrow> [])"

section \<open>Notions of the specification\<close>

text \<open>
  The global ack advanced: it went from null to a timestamp, or from a timestamp to a
  greater one.
\<close>

definition ackAdvanced :: "jsstring option \<Rightarrow> jsstring option \<Rightarrow> bool" where
  "ackAdvanced prior new =
     (case new of
        None \<Rightarrow> False
      | Some n \<Rightarrow> (case prior of None \<Rightarrow> True | Some p \<Rightarrow> p < n))"

section \<open>An example library\<close>

text \<open>
  A small library on which the theorems below are instantiated: two replicas of two
  users, both having acknowledged, four logged operations on two documents and one
  baseline.
\<close>

definition exampleOperation :: "string \<Rightarrow> string \<Rightarrow> patch \<Rightarrow> operation" where
  "exampleOperation x t d = \<lparr> op_oid = js x, op_timestamp = js t, op_data = d \<rparr>"

definition exampleToken :: "string \<Rightarrow> replicaType \<Rightarrow> tokenInfo" where
  "exampleToken u ty = \<lparr> tok_userId = js u, tok_type = ty \<rparr>"

definition exampleReplica :: "string \<Rightarrow> string \<Rightarrow> string \<Rightarrow> replicaInfo" where
  "exampleReplica r u t =
     \<lparr> r_id = js r, r_clientId = js u, r_type = Realtime,
       r_ackedLogicalTime = Some (js t), r_lastSeen = 0 \<rparr>"

definition exampleLibrary :: serverLibrary where
  "exampleLibrary =
     \<lparr> replicas = [exampleReplica ''rA'' ''alice'' ''t3'', exampleReplica ''rB'' ''bob'' ''t2''],
       operations =
         [toHistoryItem (js ''rA'')
            (exampleOperation ''test/a'' ''t1'' (Set (js ''content'') (JPrim (js ''1 apples'')))),
          toHistoryItem (js ''rB'')
            (exampleOperation ''test/b'' ''t1b'' (Initialize (JObj []))),
          toHistoryItem (js ''rA'')
            (exampleOperation ''test/a'' ''t2'' (Set (js ''content'') (JPrim (js ''2 apples'')))),
          toHistoryItem (js ''rA'')
            (exampleOperation ''test/a'' ''t3'' (Delete (js ''content'')))],
       baselines = [\<lparr> bl_oid = js ''test/a'', bl_snapshot = JObj [], bl_timestamp = js ''t0'' \<rparr>],
       presences = [],
       outbox = [],
       pendingRebaseTimeout = None,
       timers = 0,
       now = 5,
       replicaTruancyMinutes = 10 \<rparr>"

text \<open>A stand-in for the parameter \<open>applyPatch\<close> in the examples.\<close>

fun exampleApplyPatch :: "json \<Rightarrow> patch \<Rightarrow> json" where
  "exampleApplyPatch (JObj fs) (Set f v) = JObj (filter (\<lambda>kv. fst kv \<noteq> f) fs @ [(f, v)])"
| "exampleApplyPatch (JObj fs) (Delete f) = JObj (filter (\<lambda>kv. fst kv \<noteq> f) fs)"
| "exampleApplyPatch s (Initialize v) = v"
| "exampleApplyPatch s p = s"

definition exampleDocument :: json where
  "exampleDocument =
     JObj [(js ''foo'', JObj [(js ''bar'', JPrim (js ''1'')),
                             (js ''baz'', JArr [JPrim (js ''2''), JPrim (js ''3'')])]),
           (js ''qux'', JArr [JObj [(js ''corge'', JPrim (js ''true''))],
                             JObj [(js ''grault'', JObj [(js ''garply'', JPrim (js ''4''))])]])]"

text \<open>The counter of the test: the \<open>n\<close>-th sub-id is the digit \<open>n\<close>.\<close>

definition exampleSubId :: "nat \<Rightarrow> jsstring" where
  "exampleSubId n = [of_nat (48 + n)]"

definition exampleProfiles :: "jsstring \<Rightarrow> json" where
  "exampleProfiles u = JObj [(js ''name'', JPrim u)]"

definition exampleBaseline :: documentBaseline where
  "exampleBaseline = \<lparr> bl_oid = js ''test/c'', bl_snapshot = JObj [], bl_timestamp = js ''t0'' \<rparr>"

section \<open>Lemmas on the registry and the global ack\<close>

lemma getGlobalAck_tables [simp]:
  "getGlobalAck a (s\<lparr> operations := x \<rparr>) = getGlobalAck a s"
  "getGlobalAck a (s\<lparr> baselines := y \<rparr>) = getGlobalAck a s"
  "getGlobalAck a (s\<lparr> outbox := z \<rparr>) = getGlobalAck a s"
  "getGlobalAck a (s\<lparr> timers := n \<rparr>) = getGlobalAck a s"
  by (simp_all add: getGlobalAck_def)

lemma updateAcknowledged_fields:
  "replicas (updateAcknowledged r t info s) = replicas_updateAcknowledged r t (replicas s)"
  "operations (updateAcknowledged r t info s) = operations s"
  "baselines (updateAcknowledged r t info s) = baselines s"
  by (simp_all add: updateAcknowledged_def broadcast_def Let_def split: option.splits)

lemma updateAcknowledged_outbox:
  "\<exists>ga. outbox (updateAcknowledged r t info s) = outbox s @ ga
        \<and> (ga = [] \<or> (\<exists>g. ga = [Broadcast (GlobalAck g) []]))"
  by (simp add: updateAcknowledged_def broadcast_def Let_def split: option.splits)

lemma replicas_get_updateAcknowledged:
  "replicas_get rs r = Some i \<Longrightarrow>
   \<exists>i'. replicas_get (replicas_updateAcknowledged r t rs) r = Some i'
       \<and> r_ackedLogicalTime i' = Some (ackMax (r_ackedLogicalTime i) t)
       \<and> r_clientId i' = r_clientId i"
  unfolding replicas_get_def replicas_updateAcknowledged_def
  by (induction rs) (auto split: if_splits)

lemma minAcked_Some:
  "minAcked xs = Some m \<Longrightarrow>
     (\<forall>i\<in>set xs. \<exists>a. r_ackedLogicalTime i = Some a \<and> m \<le> a)
     \<and> (\<exists>i\<in>set xs. r_ackedLogicalTime i = Some m)"
proof (induction xs arbitrary: m rule: minAcked.induct)
  case 1
  then show ?case by simp
next
  case (2 r)
  then show ?case by simp
next
  case (3 r v va)
  from "3.prems" obtain a b where a: "r_ackedLogicalTime r = Some a"
    and b: "minAcked (v # va) = Some b" and m: "m = min a b"
    by (auto split: option.splits)
  from "3.IH" [OF a b] have ih:
    "\<forall>i\<in>set (v # va). \<exists>c. r_ackedLogicalTime i = Some c \<and> b \<le> c"
    "\<exists>i\<in>set (v # va). r_ackedLogicalTime i = Some b"
    by blast+
  have "m \<le> a" "m \<le> b" using m by simp_all
  then have all: "\<forall>i\<in>set (r # v # va). \<exists>c. r_ackedLogicalTime i = Some c \<and> m \<le> c"
    using a ih(1) by (metis order_trans set_ConsD)
  have "m = a \<or> m = b" using m by (simp add: min_def)
  then have ex: "\<exists>i\<in>set (r # v # va). r_ackedLogicalTime i = Some m"
    using a ih(2) by (metis list.set_intros(1) list.set_intros(2))
  from all ex show ?case by blast
qed

lemma minAcked_None:
  "minAcked xs = None \<longleftrightarrow> xs = [] \<or> (\<exists>i\<in>set xs. r_ackedLogicalTime i = None)"
  by (induction xs rule: minAcked.induct) (auto split: option.splits)

lemma qualifies_updateAcknowledged:
  "filter (qualifies a nw thr) (replicas_updateAcknowledged r t rs)
     = replicas_updateAcknowledged r t (filter (qualifies a nw thr) rs)"
  unfolding replicas_updateAcknowledged_def
  by (induction rs) (auto simp: qualifies_def isTruant_def)

lemma acked_after_update:
  "j \<in> set (replicas_updateAcknowledged r t xs) \<Longrightarrow>
     \<exists>i\<in>set xs. r_ackedLogicalTime j = r_ackedLogicalTime i
               \<or> r_ackedLogicalTime j = Some (ackMax (r_ackedLogicalTime i) t)"
  unfolding replicas_updateAcknowledged_def by auto

lemma ackMax_ge: "c \<le> ackMax (Some c) t"
  by (simp add: ackMax_def)

lemma ackMax_nonempty: "t \<noteq> [] \<Longrightarrow> cur \<noteq> Some [] \<Longrightarrow> ackMax cur t \<noteq> []"
  by (cases cur) (auto simp: ackMax_def max_def)

lemma minAcked_update_mono:
  assumes "minAcked xs = Some p"
  shows "\<exists>n. minAcked (replicas_updateAcknowledged r t xs) = Some n \<and> p \<le> n"
proof -
  let ?ys = "replicas_updateAcknowledged r t xs"
  from minAcked_Some [OF assms] have old:
    "\<forall>i\<in>set xs. \<exists>a. r_ackedLogicalTime i = Some a \<and> p \<le> a" by blast
  from assms have ne: "xs \<noteq> []" by auto
  then have ne': "?ys \<noteq> []" by (simp add: replicas_updateAcknowledged_def)
  have some: "\<forall>j\<in>set ?ys. r_ackedLogicalTime j \<noteq> None"
    using acked_after_update old by fastforce
  from ne' some have "minAcked ?ys \<noteq> None" by (simp add: minAcked_None)
  then obtain n where n: "minAcked ?ys = Some n" by blast
  from minAcked_Some [OF n] obtain j where j: "j \<in> set ?ys" "r_ackedLogicalTime j = Some n"
    by blast
  from acked_after_update [OF j(1)] obtain i where i: "i \<in> set xs"
    "r_ackedLogicalTime j = r_ackedLogicalTime i
     \<or> r_ackedLogicalTime j = Some (ackMax (r_ackedLogicalTime i) t)" by blast
  from old i(1) obtain a where a: "r_ackedLogicalTime i = Some a" "p \<le> a" by blast
  have "p \<le> n"
    using i(2) j(2) a ackMax_ge [of a t] by auto
  with n show ?thesis by blast
qed

lemma minAcked_update_nonempty:
  assumes "minAcked (replicas_updateAcknowledged r t xs) = Some n"
    and "t \<noteq> []" and "\<forall>i\<in>set xs. r_ackedLogicalTime i \<noteq> Some []"
  shows "n \<noteq> []"
proof -
  from minAcked_Some [OF assms(1)] obtain j
    where j: "j \<in> set (replicas_updateAcknowledged r t xs)" "r_ackedLogicalTime j = Some n"
    by blast
  from acked_after_update [OF j(1)] obtain i where i: "i \<in> set xs"
    "r_ackedLogicalTime j = r_ackedLogicalTime i
     \<or> r_ackedLogicalTime j = Some (ackMax (r_ackedLogicalTime i) t)" by blast
  from i(1) assms(3) have "r_ackedLogicalTime i \<noteq> Some []" by blast
  then show ?thesis
    using i(2) j(2) ackMax_nonempty [OF assms(2), of "r_ackedLogicalTime i"] by auto
qed

lemma globalAck_broadcast_iff:
  assumes "t \<noteq> []" and "\<forall>i\<in>set (replicas s). r_ackedLogicalTime i \<noteq> Some []"
    and "getGlobalAck [] (s\<lparr> replicas := replicas_updateAcknowledged r t (replicas s) \<rparr>) = Some n"
  shows "(n \<noteq> [] \<and> getGlobalAck [] s \<noteq> Some n) \<longleftrightarrow> ackAdvanced (getGlobalAck [] s) (Some n)"
proof -
  let ?q = "qualifies [] (now s) (replicaTruancyMinutes s)"
  have new: "minAcked (replicas_updateAcknowledged r t (filter ?q (replicas s))) = Some n"
    using assms(3)
    by (simp add: getGlobalAck_def replicas_getGlobalAck_def qualifies_updateAcknowledged)
  have prior: "getGlobalAck [] s = minAcked (filter ?q (replicas s))"
    by (simp add: getGlobalAck_def replicas_getGlobalAck_def)
  have ne: "n \<noteq> []"
    using minAcked_update_nonempty [OF new assms(1)] assms(2) by simp
  show ?thesis
  proof (cases "minAcked (filter ?q (replicas s))")
    case None
    then show ?thesis using ne prior by (simp add: ackAdvanced_def)
  next
    case (Some p)
    from minAcked_update_mono [OF Some, of r t] new have "p \<le> n" by simp
    then show ?thesis using ne prior Some by (auto simp: ackAdvanced_def)
  qed
qed

lemma getGlobalAck_same_registry:
  "replicas a = replicas b \<Longrightarrow> now a = now b
     \<Longrightarrow> replicaTruancyMinutes a = replicaTruancyMinutes b
     \<Longrightarrow> getGlobalAck active a = getGlobalAck active b"
  by (simp add: getGlobalAck_def)

lemma updateAcknowledged_outbox_exact:
  "outbox (updateAcknowledged r t info s)
     = outbox s
       @ (case getGlobalAck [] (s\<lparr> replicas := replicas_updateAcknowledged r t (replicas s) \<rparr>) of
            None \<Rightarrow> []
          | Some g \<Rightarrow>
              if g \<noteq> [] \<and> getGlobalAck [] s \<noteq> Some g
              then [Broadcast (GlobalAck g) []] else [])"
  by (auto simp: updateAcknowledged_def broadcast_def Let_def split: option.splits)

lemma handleSyncStep2_writer:
  assumes "hasWriteAccess info"
  shows "handleSyncStep2 r ops bls t clientKey info s
      = updateAcknowledged r (if ops = [] then t else op_timestamp (last ops)) info
          (rebroadcastOperations clientKey r ops bls
            (s\<lparr> baselines := baselines_insertAll bls (baselines s),
                operations := operations_insertAll r ops (operations s) \<rparr>))"
  using assms by (simp add: handleSyncStep2_def Let_def)

lemma handleSyncStep2_outbox:
  assumes "hasWriteAccess info"
  shows "outbox (handleSyncStep2 r ops bls t clientKey info s)
          = outbox s
            @ (if ops = [] \<and> bls = [] then []
               else [Broadcast (OpRe ops bls r (getGlobalAck [] s)) [clientKey]])
            @ (case getGlobalAck []
                      (s\<lparr> replicas :=
                            replicas_updateAcknowledged r
                              (if ops = [] then t else op_timestamp (last ops)) (replicas s) \<rparr>) of
                 None \<Rightarrow> []
               | Some g \<Rightarrow>
                   if g \<noteq> [] \<and> getGlobalAck [] s \<noteq> Some g
                   then [Broadcast (GlobalAck g) []] else [])"
proof -
  let ?ts = "if ops = [] then t else op_timestamp (last ops)"
  let ?s3 = "rebroadcastOperations clientKey r ops bls
     (s\<lparr> baselines := baselines_insertAll bls (baselines s),
         operations := operations_insertAll r ops (operations s) \<rparr>)"
  have s3: "replicas ?s3 = replicas s"
    "outbox ?s3 = outbox s @ (if ops = [] \<and> bls = [] then []
                  else [Broadcast (OpRe ops bls r (getGlobalAck [] s)) [clientKey]])"
    by (simp_all add: rebroadcastOperations_def broadcast_def)
  have same: "now ?s3 = now s" "replicaTruancyMinutes ?s3 = replicaTruancyMinutes s"
    by (simp_all add: rebroadcastOperations_def broadcast_def)
  have g0: "getGlobalAck [] ?s3 = getGlobalAck [] s"
    by (rule getGlobalAck_same_registry) (simp_all only: s3 same)
  have g1: "getGlobalAck [] (?s3\<lparr> replicas := replicas_updateAcknowledged r ?ts (replicas ?s3) \<rparr>)
      = getGlobalAck [] (s\<lparr> replicas := replicas_updateAcknowledged r ?ts (replicas s) \<rparr>)"
    by (rule getGlobalAck_same_registry) (simp_all add: s3 same)
  show ?thesis
    unfolding handleSyncStep2_writer [OF assms] updateAcknowledged_outbox_exact g0 g1 s3(2)
    by simp
qed

section \<open>The rebase pass\<close>

subsection \<open>Bucketing by OID\<close>

lemma bucketOps_all_before:
  "\<forall>h\<in>set hs. h_timestamp h < T \<Longrightarrow> bucketOps T hs acc [] = foldl pushOp acc hs"
  by (induction hs arbitrary: acc) (simp_all add: Let_def)

lemma map_of_pushOp:
  "map_of (pushOp acc h)
     = (map_of acc)(h_oid h \<mapsto> (case map_of acc (h_oid h) of None \<Rightarrow> [h] | Some v \<Rightarrow> v @ [h]))"
  by (induction acc h rule: pushOp.induct) (auto simp: fun_eq_iff)

lemma map_of_foldl_pushOp:
  "map_of (foldl pushOp acc hs) k =
     (if filter (\<lambda>h. h_oid h = k) hs = [] then map_of acc k
      else Some ((case map_of acc k of None \<Rightarrow> [] | Some v \<Rightarrow> v) @ filter (\<lambda>h. h_oid h = k) hs))"
  by (induction hs arbitrary: acc) (auto simp: map_of_pushOp split: option.splits)

lemma keys_pushOp:
  "map fst (pushOp acc h)
     = (if h_oid h \<in> fst ` set acc then map fst acc else map fst acc @ [h_oid h])"
  by (induction acc h rule: pushOp.induct) (auto simp: image_iff)

lemma distinct_pushOp: "distinct (map fst acc) \<Longrightarrow> distinct (map fst (pushOp acc h))"
  by (simp add: keys_pushOp)

lemma distinct_foldl_pushOp:
  "distinct (map fst acc) \<Longrightarrow> distinct (map fst (foldl pushOp acc hs))"
  by (induction hs arbitrary: acc) (simp_all add: distinct_pushOp)

lemma bucketed_pushOp:
  "(\<Union>b\<in>set (pushOp acc h). set (snd b)) = insert h (\<Union>b\<in>set acc. set (snd b))"
  by (induction acc h rule: pushOp.induct) auto

lemma bucketed_foldl_pushOp:
  "(\<Union>b\<in>set (foldl pushOp acc hs). set (snd b)) = (\<Union>b\<in>set acc. set (snd b)) \<union> set hs"
  by (induction hs arbitrary: acc) (simp_all add: bucketed_pushOp)

subsection \<open>Baselines and the log under the loop over the buckets\<close>

lemma find_replace:
  "find (\<lambda>c. bl_oid c = x) (map (\<lambda>c. if bl_oid c = bl_oid b then b else c) bs)
     = (if x = bl_oid b
        then (if list_ex (\<lambda>c. bl_oid c = bl_oid b) bs then Some b else None)
        else find (\<lambda>c. bl_oid c = x) bs)"
  by (induction bs) auto

lemma find_append_new:
  "\<not> list_ex (\<lambda>c. bl_oid c = bl_oid b) bs \<Longrightarrow>
   find (\<lambda>c. bl_oid c = x) (bs @ [b])
     = (if x = bl_oid b then Some b else find (\<lambda>c. bl_oid c = x) bs)"
  by (induction bs) auto

lemma baselines_get_upsert:
  "baselines_get (baselines_upsert bs b) x
     = (if x = bl_oid b then Some b else baselines_get bs x)"
  by (simp add: baselines_get_def baselines_upsert_def find_replace find_append_new)

lemma baselines_get_applyOperations:
  "baselines_get (baselines_applyOperations ap k v bs) x =
     (if x = k \<and> v \<noteq> []
      then Some \<lparr> bl_oid = k, bl_snapshot = foldl ap (priorSnapshot bs k) (map h_data v),
                  bl_timestamp = maxTimestamp v \<rparr>
      else baselines_get bs x)"
  by (simp add: baselines_applyOperations_def baselines_get_upsert)

lemma priorSnapshot_applyOperations:
  "x \<noteq> k \<Longrightarrow> priorSnapshot (baselines_applyOperations ap k v bs) x = priorSnapshot bs x"
  by (simp add: priorSnapshot_def baselines_get_applyOperations)

lemma operations_dropAll_twice:
  "operations_dropAll ds (operations_dropAll cs log) = operations_dropAll (cs @ ds) log"
  by (simp add: operations_dropAll_def list_ex_iff bex_Un)

lemma operations_foldl_rebaseDocument:
  "operations (foldl (rebaseDocument ap) s B)
     = operations_dropAll (concat (map snd B)) (operations s)"
proof (induction B arbitrary: s)
  case Nil
  show ?case by (simp add: operations_dropAll_def)
next
  case (Cons b B)
  have "operations (rebaseDocument ap s b) = operations_dropAll (snd b) (operations s)"
    by (simp add: rebaseDocument_def Let_def)
  then show ?case using Cons.IH [of "rebaseDocument ap s b"]
    by (simp add: operations_dropAll_twice)
qed

lemma baselines_foldl_rebaseDocument:
  assumes "distinct (map fst B)"
  shows "baselines_get (baselines (foldl (rebaseDocument ap) s B)) x =
     (case map_of B x of
        None \<Rightarrow> baselines_get (baselines s) x
      | Some v \<Rightarrow>
          if v = [] then baselines_get (baselines s) x
          else Some \<lparr> bl_oid = x,
                      bl_snapshot = foldl ap (priorSnapshot (baselines s) x) (map h_data v),
                      bl_timestamp = maxTimestamp v \<rparr>)"
  using assms
proof (induction B arbitrary: s)
  case Nil
  show ?case by simp
next
  case (Cons b B)
  obtain k v where b: "b = (k, v)" by (cases b)
  let ?s1 = "rebaseDocument ap s (k, v)"
  have bs1: "baselines ?s1 = baselines_applyOperations ap k v (baselines s)"
    by (simp add: rebaseDocument_def Let_def)
  from Cons.prems have d: "distinct (map fst B)" and nk: "k \<notin> fst ` set B"
    by (simp_all add: b)
  have f: "foldl (rebaseDocument ap) s (b # B) = foldl (rebaseDocument ap) ?s1 B"
    by (simp add: b)
  note ih = Cons.IH [OF d, of ?s1]
  show ?case
  proof (cases "x = k")
    case True
    from nk have "map_of B k = None" by (simp add: map_of_eq_None_iff)
    then show ?thesis unfolding f ih bs1 using True
      by (simp add: b baselines_get_applyOperations)
  next
    case False
    then show ?thesis unfolding f ih bs1
      by (simp add: b baselines_get_applyOperations priorSnapshot_applyOperations
          split: option.splits)
  qed
qed

lemma set_getBefore:
  "set (operations_getBefore T log) = {h \<in> set log. h_timestamp h < T}"
  by (simp add: operations_getBefore_def)

lemma dropAll_getBefore:
  assumes "set ds = {h \<in> set log. h_timestamp h < T}"
  shows "operations_dropAll ds log = filter (\<lambda>h. \<not> h_timestamp h < T) log"
proof -
  have below: "\<And>d. d \<in> set ds \<Longrightarrow> h_timestamp d < T"
    and mem: "\<And>h. h \<in> set log \<Longrightarrow> h_timestamp h < T \<Longrightarrow> h \<in> set ds"
    unfolding assms by simp_all
  have "\<And>h. h \<in> set log \<Longrightarrow> (\<not> list_ex (sameKey h) ds) = (\<not> h_timestamp h < T)"
  proof -
    fix h assume h: "h \<in> set log"
    show "(\<not> list_ex (sameKey h) ds) = (\<not> h_timestamp h < T)"
    proof (cases "h_timestamp h < T")
      case True
      from mem [OF h True] have "h \<in> set ds" .
      moreover have "sameKey h h" by (simp add: sameKey_def)
      ultimately have "list_ex (sameKey h) ds" unfolding list_ex_iff by blast
      with True show ?thesis by simp
    next
      case False
      have "\<not> list_ex (sameKey h) ds"
      proof
        assume "list_ex (sameKey h) ds"
        then obtain d where "d \<in> set ds" "sameKey h d" unfolding list_ex_iff by blast
        with below [of d] have "h_timestamp h < T" by (simp add: sameKey_def)
        with False show False by simp
      qed
      with False show ?thesis by simp
    qed
  qed
  then show ?thesis
    unfolding operations_dropAll_def by (rule filter_cong [OF refl])
qed

lemma bucket_of_getBefore:
  "filter (\<lambda>h. h_oid h = x) (operations_getBefore T log)
     = sort_key h_timestamp [h \<leftarrow> log. h_oid h = x \<and> h_timestamp h < T]"
proof -
  have "filter (\<lambda>h. h_oid h = x) (filter (\<lambda>h. h_timestamp h < T) log)
      = [h \<leftarrow> log. h_oid h = x \<and> h_timestamp h < T]"
    by (induction log) simp_all
  then show ?thesis
    by (simp only: operations_getBefore_def filter_sort)
qed

subsection \<open>The pass\<close>

lemma rebase_Some:
  assumes "getGlobalAck (map (\<lambda>p. p_replicaId (snd p)) (presences s)) s = Some T"
    and "T \<noteq> []"
  shows "operations (rebase ap s) = filter (\<lambda>h. \<not> h_timestamp h < T) (operations s)"
    and "filter (\<lambda>h. h_oid h = x \<and> h_timestamp h < T) (operations s) \<noteq> [] \<Longrightarrow>
         baselines_get (baselines (rebase ap s)) x
           = Some \<lparr> bl_oid = x,
                    bl_snapshot = foldl ap (priorSnapshot (baselines s) x)
                      (map h_data (sort_key h_timestamp
                         [h \<leftarrow> operations s. h_oid h = x \<and> h_timestamp h < T])),
                    bl_timestamp = maxTimestamp (sort_key h_timestamp
                         [h \<leftarrow> operations s. h_oid h = x \<and> h_timestamp h < T]) \<rparr>"
proof -
  let ?ops = "operations_getBefore T (operations s)"
  let ?B = "foldl pushOp [] ?ops"
  let ?s1 = "foldl (rebaseDocument ap) s ?B"
  have before: "\<forall>h\<in>set ?ops. h_timestamp h < T" by (simp add: set_getBefore)
  have B: "bucketOps T ?ops [] [] = ?B" by (rule bucketOps_all_before [OF before])
  have r: "operations (rebase ap s) = operations ?s1" "baselines (rebase ap s) = baselines ?s1"
    using assms by (simp_all add: rebase_def Let_def B broadcast_def)
  have "set (concat (map snd ?B)) = {h \<in> set (operations s). h_timestamp h < T}"
    by (simp add: bucketed_foldl_pushOp set_getBefore)
  then show "operations (rebase ap s) = filter (\<lambda>h. \<not> h_timestamp h < T) (operations s)"
    by (simp add: r operations_foldl_rebaseDocument dropAll_getBefore)
  assume ne: "filter (\<lambda>h. h_oid h = x \<and> h_timestamp h < T) (operations s) \<noteq> []"
  let ?v = "sort_key h_timestamp [h \<leftarrow> operations s. h_oid h = x \<and> h_timestamp h < T]"
  have v: "filter (\<lambda>h. h_oid h = x) ?ops = ?v" by (rule bucket_of_getBefore)
  have "set ?v \<noteq> {}" using ne by (auto simp: filter_empty_conv)
  then have vne: "?v \<noteq> []" by (simp only: set_empty not_False_eq_True)
  have m: "map_of ?B x = Some ?v"
    using vne by (simp add: map_of_foldl_pushOp v)
  have d: "distinct (map fst ?B)" by (rule distinct_foldl_pushOp) simp
  show "baselines_get (baselines (rebase ap s)) x
           = Some \<lparr> bl_oid = x,
                    bl_snapshot = foldl ap (priorSnapshot (baselines s) x) (map h_data ?v),
                    bl_timestamp = maxTimestamp ?v \<rparr>"
    using vne by (simp add: r baselines_foldl_rebaseDocument [OF d] m)
qed

lemma rebase_None:
  "getGlobalAck (map (\<lambda>p. p_replicaId (snd p)) (presences s)) s = None \<Longrightarrow> rebase ap s = s"
  by (simp add: rebase_def)

lemma rebase_empty:
  "getGlobalAck (map (\<lambda>p. p_replicaId (snd p)) (presences s)) s = Some [] \<Longrightarrow> rebase ap s = s"
  by (simp add: rebase_def)

text \<open>
  C1. When the global ack computed over the qualifying replicas and the connected ones
  is null, the rebase pass changes nothing. When it is a timestamp \<open>T\<close>, no operation
  with a timestamp below \<open>T\<close> remains in the log afterwards (the others all remain),
  and for every OID that had such operations the baseline's snapshot is the result of
  applying them, in the order of their timestamps, to the snapshot of the prior baseline
  (to the empty object when there was none).
\<close>

theorem rebase_compacts_below_global_ack:
  "case getGlobalAck (map (\<lambda>p. p_replicaId (snd p)) (presences s)) s of
     None \<Rightarrow> rebase applyPatch s = s
   | Some T \<Rightarrow>
       (\<forall>h\<in>set (operations (rebase applyPatch s)). \<not> h_timestamp h < T)
       \<and> operations (rebase applyPatch s) = filter (\<lambda>h. \<not> h_timestamp h < T) (operations s)
       \<and> (\<forall>x. (\<exists>h\<in>set (operations s). h_oid h = x \<and> h_timestamp h < T) \<longrightarrow>
             (\<exists>b. baselines_get (baselines (rebase applyPatch s)) x = Some b
                \<and> bl_snapshot b
                    = foldl applyPatch (priorSnapshot (baselines s) x)
                        (map h_data (sort_key h_timestamp
                           [h \<leftarrow> operations s. h_oid h = x \<and> h_timestamp h < T]))))"
proof (cases "getGlobalAck (map (\<lambda>p. p_replicaId (snd p)) (presences s)) s")
  case None
  then show ?thesis by (simp add: rebase_None)
next
  case (Some T)
  show ?thesis
  proof (cases "T = []")
    case True
    with Some have "rebase applyPatch s = s" by (simp add: rebase_empty)
    then show ?thesis using Some True by simp
  next
    case False
    note r = rebase_Some [OF Some False, where ap = applyPatch]
    have a: "\<forall>h\<in>set (operations (rebase applyPatch s)). \<not> h_timestamp h < T"
      by (simp add: r(1))
    have b: "\<forall>x. (\<exists>h\<in>set (operations s). h_oid h = x \<and> h_timestamp h < T) \<longrightarrow>
             (\<exists>b. baselines_get (baselines (rebase applyPatch s)) x = Some b
                \<and> bl_snapshot b
                    = foldl applyPatch (priorSnapshot (baselines s) x)
                        (map h_data (sort_key h_timestamp
                           [h \<leftarrow> operations s. h_oid h = x \<and> h_timestamp h < T])))"
    proof (intro allI impI)
      fix x assume "\<exists>h\<in>set (operations s). h_oid h = x \<and> h_timestamp h < T"
      then have "filter (\<lambda>h. h_oid h = x \<and> h_timestamp h < T) (operations s) \<noteq> []"
        by (auto simp: filter_empty_conv)
      from r(2) [OF this]
      show "\<exists>b. baselines_get (baselines (rebase applyPatch s)) x = Some b
                \<and> bl_snapshot b
                    = foldl applyPatch (priorSnapshot (baselines s) x)
                        (map h_data (sort_key h_timestamp
                           [h \<leftarrow> operations s. h_oid h = x \<and> h_timestamp h < T]))"
        by simp
    qed
    show ?thesis using Some a b r(1) by simp
  qed
qed

theorem rebase_compacts_below_global_ack_witness:
  "getGlobalAck (map (\<lambda>p. p_replicaId (snd p)) (presences exampleLibrary)) exampleLibrary
     = Some (js ''t2'')
   \<and> operations (rebase exampleApplyPatch exampleLibrary)
     = [toHistoryItem (js ''rA'')
          (exampleOperation ''test/a'' ''t2'' (Set (js ''content'') (JPrim (js ''2 apples'')))),
        toHistoryItem (js ''rA'')
          (exampleOperation ''test/a'' ''t3'' (Delete (js ''content'')))]
   \<and> (\<exists>b. baselines_get (baselines (rebase exampleApplyPatch exampleLibrary)) (js ''test/a'')
            = Some b
          \<and> bl_snapshot b = JObj [(js ''content'', JPrim (js ''1 apples''))])"
proof -
  let ?T = "js ''t2''"
  have ga: "getGlobalAck (map (\<lambda>p. p_replicaId (snd p)) (presences exampleLibrary))
      exampleLibrary = Some ?T"
    by code_simp
  have kept: "filter (\<lambda>h. \<not> h_timestamp h < ?T) (operations exampleLibrary)
     = [toHistoryItem (js ''rA'')
          (exampleOperation ''test/a'' ''t2'' (Set (js ''content'') (JPrim (js ''2 apples'')))),
        toHistoryItem (js ''rA'')
          (exampleOperation ''test/a'' ''t3'' (Delete (js ''content'')))]"
    by code_simp
  have affected: "\<exists>h\<in>set (operations exampleLibrary).
      h_oid h = js ''test/a'' \<and> h_timestamp h < ?T"
    by code_simp
  have snap: "foldl exampleApplyPatch (priorSnapshot (baselines exampleLibrary) (js ''test/a''))
      (map h_data (sort_key h_timestamp
         [h \<leftarrow> operations exampleLibrary. h_oid h = js ''test/a'' \<and> h_timestamp h < ?T]))
     = JObj [(js ''content'', JPrim (js ''1 apples''))]"
    by code_simp
  note c = rebase_compacts_below_global_ack
    [where s = exampleLibrary and applyPatch = exampleApplyPatch, unfolded ga option.case]
  from c have kept': "operations (rebase exampleApplyPatch exampleLibrary)
      = filter (\<lambda>h. \<not> h_timestamp h < ?T) (operations exampleLibrary)"
    by (elim conjE)
  from c have "(\<exists>h\<in>set (operations exampleLibrary). h_oid h = js ''test/a'' \<and> h_timestamp h < ?T)
      \<longrightarrow> (\<exists>b. baselines_get (baselines (rebase exampleApplyPatch exampleLibrary)) (js ''test/a'')
               = Some b
             \<and> bl_snapshot b
                 = foldl exampleApplyPatch
                     (priorSnapshot (baselines exampleLibrary) (js ''test/a''))
                     (map h_data (sort_key h_timestamp
                        [h \<leftarrow> operations exampleLibrary.
                           h_oid h = js ''test/a'' \<and> h_timestamp h < ?T])))"
    by (elim conjE allE)
  from this affected obtain b
    where b: "baselines_get (baselines (rebase exampleApplyPatch exampleLibrary)) (js ''test/a'')
               = Some b"
      "bl_snapshot b
         = foldl exampleApplyPatch (priorSnapshot (baselines exampleLibrary) (js ''test/a''))
             (map h_data (sort_key h_timestamp
                [h \<leftarrow> operations exampleLibrary.
                   h_oid h = js ''test/a'' \<and> h_timestamp h < ?T]))"
    by (elim impE exE conjE)
  show ?thesis
  proof (intro conjI exI)
    show "getGlobalAck (map (\<lambda>p. p_replicaId (snd p)) (presences exampleLibrary))
        exampleLibrary = Some ?T" by (rule ga)
    show "operations (rebase exampleApplyPatch exampleLibrary)
       = [toHistoryItem (js ''rA'')
            (exampleOperation ''test/a'' ''t2'' (Set (js ''content'') (JPrim (js ''2 apples'')))),
          toHistoryItem (js ''rA'')
            (exampleOperation ''test/a'' ''t3'' (Delete (js ''content'')))]"
      by (simp only: kept' kept)
    show "baselines_get (baselines (rebase exampleApplyPatch exampleLibrary)) (js ''test/a'')
        = Some b" by (rule b(1))
    show "bl_snapshot b = JObj [(js ''content'', JPrim (js ''1 apples''))]"
      by (simp only: b(2) snap)
  qed
qed

section \<open>Superseding\<close>

lemma supersedeOperations_subset: "set (supersedeOperations xs) \<subseteq> set xs"
  by (induction xs) auto

lemma supersedes_target:
  "targets x f l \<Longrightarrow> targets x f p \<Longrightarrow> isSet p \<Longrightarrow> supersedes l p"
  by (auto simp: targets_def isSet_def supersedes_def split: patch.splits)

lemma not_superseded_by_others:
  "targets x f l \<Longrightarrow> \<not> targets x f b \<Longrightarrow> \<not> (op_oid b = x \<and> isInitialize b) \<Longrightarrow>
     \<not> supersedes b l"
  by (auto simp: targets_def isInitialize_def supersedes_def split: patch.splits)

lemma supersedeOperations_last_kept:
  assumes "targets x f l"
    and "\<forall>p\<in>set post. \<not> targets x f p \<and> \<not> (op_oid p = x \<and> isInitialize p)"
  shows "filter (targets x f) (supersedeOperations (l # post)) = [l]"
proof -
  have "\<not> list_ex (\<lambda>b. supersedes b l) post"
    using assms not_superseded_by_others by (auto simp: list_ex_iff)
  moreover have "filter (targets x f) (supersedeOperations post) = []"
    using assms(2) supersedeOperations_subset [of post] by (auto simp: filter_empty_conv)
  ultimately show ?thesis using assms(1) by simp
qed

text \<open>
  The batches of \<open>superseding.test.ts\<close>: ten \<open>set\<close>s of \<open>content\<close> leave one
  operation; a \<open>set\<close> of \<open>purchased\<close>, ten \<open>set\<close>s of \<open>categoryId\<close> and a
  \<open>delete\<close> of \<open>categoryId\<close> leave two.
\<close>

lemma superseding_test_expectations:
  "length (supersedeOperations
     (map (\<lambda>i. \<lparr> op_oid = js ''items/1'', op_timestamp = js ''t1'' @ exampleSubId i,
                  op_data = Set (js ''content'') (JPrim (exampleSubId i @ js '' apples'')) \<rparr>)
        [0..<10])) = 1"
  "length (supersedeOperations
     (exampleOperation ''items/1'' ''t2'' (Set (js ''purchased'') (JPrim (js ''true'')))
      # map (\<lambda>i. \<lparr> op_oid = js ''items/1'', op_timestamp = js ''t3'' @ exampleSubId i,
                    op_data = Set (js ''categoryId'') (JPrim (exampleSubId i)) \<rparr>)
          [0..<10]
      @ [exampleOperation ''items/1'' ''t4'' (Delete (js ''categoryId''))])) = 2"
  by code_simp+

text \<open>
  C2. Let the last operation of a buffer on \<open>(oid, field)\<close> be \<open>l\<close>, every earlier
  operation on \<open>(oid, field)\<close> be a \<open>set\<close>, and no \<open>initialize\<close> of the object follow
  \<open>l\<close>. Then exactly one outbound operation for \<open>(oid, field)\<close> results, and it is \<open>l\<close>:
  the last \<open>set\<close> with its payload when the buffer holds \<open>k\<close> \<open>set\<close>s of the field, the
  \<open>delete\<close> when a \<open>delete\<close> follows any number of \<open>set\<close>s. Operations on other fields
  and objects may lie anywhere in between.
\<close>

theorem superseded_by_last_operation:
  assumes "targets x f l"
    and "\<forall>p\<in>set pre. targets x f p \<longrightarrow> isSet p"
    and "\<forall>p\<in>set post. \<not> targets x f p \<and> \<not> (op_oid p = x \<and> isInitialize p)"
  shows "filter (targets x f) (supersedeOperations (pre @ l # post)) = [l]"
  using assms(2)
proof (induction pre)
  case Nil
  show ?case using supersedeOperations_last_kept [OF assms(1) assms(3)] by simp
next
  case (Cons p pre)
  then have ih: "filter (targets x f) (supersedeOperations (pre @ l # post)) = [l]" by simp
  show ?case
  proof (cases "targets x f p")
    case True
    with Cons.prems have "isSet p" by simp
    with True assms(1) have "supersedes l p" by (simp add: supersedes_target)
    then have "list_ex (\<lambda>b. supersedes b p) (pre @ l # post)" by (auto simp: list_ex_iff)
    then show ?thesis using ih by simp
  next
    case False
    then show ?thesis using ih by simp
  qed
qed

theorem superseded_by_last_operation_witness:
  "filter (targets (js ''items/1'') (js ''categoryId''))
     (supersedeOperations
       ([exampleOperation ''items/1'' ''t1'' (Set (js ''purchased'') (JPrim (js ''true''))),
         exampleOperation ''items/1'' ''t2'' (Set (js ''categoryId'') (JPrim (js ''0''))),
         exampleOperation ''items/1'' ''t3'' (Set (js ''categoryId'') (JPrim (js ''1'')))]
        @ exampleOperation ''items/1'' ''t4'' (Delete (js ''categoryId''))
        # [exampleOperation ''items/2'' ''t5'' (Initialize JNull)]))
   = [exampleOperation ''items/1'' ''t4'' (Delete (js ''categoryId''))]"
proof -
  have l: "targets (js ''items/1'') (js ''categoryId'')
     (exampleOperation ''items/1'' ''t4'' (Delete (js ''categoryId'')))"
    by (simp add: targets_def exampleOperation_def)
  have pre: "\<forall>p\<in>set [exampleOperation ''items/1'' ''t1'' (Set (js ''purchased'') (JPrim (js ''true''))),
         exampleOperation ''items/1'' ''t2'' (Set (js ''categoryId'') (JPrim (js ''0''))),
         exampleOperation ''items/1'' ''t3'' (Set (js ''categoryId'') (JPrim (js ''1'')))].
       targets (js ''items/1'') (js ''categoryId'') p \<longrightarrow> isSet p"
    by (simp add: isSet_def exampleOperation_def)
  have post: "\<forall>p\<in>set [exampleOperation ''items/2'' ''t5'' (Initialize JNull)].
      \<not> targets (js ''items/1'') (js ''categoryId'') p
      \<and> \<not> (op_oid p = js ''items/1'' \<and> isInitialize p)"
    by (simp add: targets_def exampleOperation_def js_def)
  from superseded_by_last_operation [OF l pre post] show ?thesis .
qed

section \<open>The handshake: when the client is told to overwrite its local data\<close>

text \<open>
  C3. The \<open>sync-resp\<close> that answers a \<open>sync\<close> message carries \<open>overwriteLocalData\<close> true
  if and only if the client asked for \<open>resyncAll\<close> or the status that \<open>getOrCreate\<close>
  returned is not \<open>existing\<close>, and the library is not empty; the library is empty exactly
  when \<open>changesSince\<close> is null and the operations and baselines gathered are both empty.
\<close>

theorem handleSync_overwriteLocalData:
  "\<exists>ops bls pcs ga pp ow.
     outbox (handleSync r resyncAll clientKey info s)
       = outbox s @ [Send clientKey (SyncResp ops bls pcs ga pp ow)]
     \<and> ops = map removeExtraOperationData
               (operations_getAfter (syncChangesSince r resyncAll info s) (operations s))
     \<and> bls = baselines_getAllAfter (syncChangesSince r resyncAll info s) (baselines s)
     \<and> (ow \<longleftrightarrow>
          (resyncAll \<or> syncStatus r resyncAll info s \<noteq> Existing)
          \<and> \<not> (syncChangesSince r resyncAll info s = None \<and> ops = [] \<and> bls = []))"
  by (cases "syncRegistry r resyncAll info s")
     (simp add: handleSync_def send_def syncStatus_def Let_def)

theorem handleSync_overwriteLocalData_witness:
  "\<exists>ops bls pcs ga pp.
     outbox (handleSync (js ''rC'') False (js ''k3'') (exampleToken ''carol'' Realtime)
        exampleLibrary)
       = [Send (js ''k3'') (SyncResp ops bls pcs ga pp True)]"
proof -
  have cs: "syncChangesSince (js ''rC'') False (exampleToken ''carol'' Realtime) exampleLibrary
              = None"
    by code_simp
  have st: "syncStatus (js ''rC'') False (exampleToken ''carol'' Realtime) exampleLibrary = New"
    by code_simp
  have ne: "operations_getAfter None (operations exampleLibrary) \<noteq> []"
    by code_simp
  have ob: "outbox exampleLibrary = []"
    by (simp add: exampleLibrary_def)
  from handleSync_overwriteLocalData
    [of "js ''rC''" False "js ''k3''" "exampleToken ''carol'' Realtime" exampleLibrary]
  show ?thesis
    unfolding cs st ob using ne by auto
qed

section \<open>Atomicity of the persistence steps\<close>

lemma handleSyncStep2_failing_none:
  "3 \<le> failAt \<Longrightarrow>
     handleSyncStep2_failing failAt r ops bls t clientKey info s
       = Returned (handleSyncStep2 r ops bls t clientKey info s)"
  by (simp add: handleSyncStep2_failing_def handleSyncStep2_def storageWrite_def
      updateAcknowledged_failing_def updateAcknowledged_def Let_def split: option.splits)

lemma handleOperation_failing_none:
  "1 \<le> failAt \<Longrightarrow>
     handleOperation_failing failAt r ops clientKey info s
       = Returned (handleOperation r ops clientKey info s)"
  by (simp add: handleOperation_failing_def handleOperation_def storageWrite_def
      db_transaction_def Let_def)

lemma handleOperation_failing_atomic:
  "handleOperation_failing failAt r ops clientKey info s = Raised e s' \<Longrightarrow> s' = s"
  by (auto simp: handleOperation_failing_def storageWrite_def db_transaction_def
      split: if_splits)

text \<open>
  C4. Only the ingestion of an \<open>op\<close> message runs in a transaction. When the second
  write of \<open>sync-step2\<close> throws, the baselines of the message stay persisted without its
  operations; when the second write of a rebase throws, the baseline holds operations that
  are still in the log; a failed \<open>op\<close> ingestion leaves the state as it was.
\<close>

theorem sync_step2_and_rebase_not_atomic:
  "handleSyncStep2_failing 1 (js ''rB'') [] [exampleBaseline] (js ''t4'') (js ''k2'')
      (exampleToken ''bob'' Realtime) exampleLibrary
     = Raised StorageFailure
         (exampleLibrary\<lparr> baselines := baselines exampleLibrary @ [exampleBaseline] \<rparr>)
   \<and> rebase_failing 1 exampleApplyPatch exampleLibrary
     = Raised StorageFailure
         (exampleLibrary\<lparr> baselines :=
            [\<lparr> bl_oid = js ''test/a'',
               bl_snapshot = JObj [(js ''content'', JPrim (js ''1 apples''))],
               bl_timestamp = js ''t1'' \<rparr>] \<rparr>)
   \<and> handleOperation_failing 0 (js ''rB'')
        [exampleOperation ''test/a'' ''t4'' (Set (js ''content'') JNull)] (js ''k2'')
        (exampleToken ''bob'' Realtime) exampleLibrary
     = Raised StorageFailure exampleLibrary"
  by code_simp

section \<open>Scheduling of the rebase\<close>

lemma enqueueRebase_never_pending:
  "pendingRebaseTimeout (enqueueRebase s) = pendingRebaseTimeout s"
  by (simp add: enqueueRebase_def)

lemma handleOperation_timers:
  "hasWriteAccess info \<Longrightarrow> pendingRebaseTimeout s = None \<Longrightarrow>
     timers (handleOperation r ops clientKey info s) = Suc (timers s)
     \<and> pendingRebaseTimeout (handleOperation r ops clientKey info s) = None"
  by (simp add: handleOperation_def enqueueRebase_def rebroadcastOperations_def broadcast_def
      Let_def)

text \<open>
  C5. Triggers issued before the pass runs are meant to coalesce, \<open>enqueueRebase\<close>
  testing \<open>pendingRebaseTimeout\<close>; but the field is never assigned, so every trigger
  schedules a pass of its own: after two \<open>op\<close> messages two passes are pending.
\<close>

theorem two_triggers_two_pending_passes:
  "timers exampleLibrary = 0
   \<and> timers (handleOperation (js ''rB'')
        [exampleOperation ''test/a'' ''t5'' (Delete (js ''content''))] (js ''k2'')
        (exampleToken ''bob'' Realtime)
        (handleOperation (js ''rB'')
           [exampleOperation ''test/a'' ''t4'' (Set (js ''content'') JNull)] (js ''k2'')
           (exampleToken ''bob'' Realtime) exampleLibrary)) = 2"
proof -
  have w: "hasWriteAccess (exampleToken ''bob'' Realtime)"
    by (simp add: hasWriteAccess_def exampleToken_def)
  have p: "pendingRebaseTimeout exampleLibrary = None" "timers exampleLibrary = 0"
    by (simp_all add: exampleLibrary_def)
  from handleOperation_timers [OF w p(1)] handleOperation_timers [OF w] p(2)
  show ?thesis by simp
qed

section \<open>Ownership of a replica\<close>

text \<open>
  C6 as stated: a message naming a replica of another user is answered \<open>forbidden\<close>.
  The library throws instead and sends nothing: here bob names alice's replica.
\<close>

theorem receive_foreign_replica_sends_nothing:
  "receive exampleProfiles (AckMsg (js ''rA'') (js ''t9'')) (js ''k2'')
      (exampleToken ''bob'' Realtime) exampleLibrary
    = Raised (ReplicaNotOwned (js ''rA'') (js ''bob'')) exampleLibrary
   \<and> outbox exampleLibrary = []"
  by code_simp

text \<open>
  C6, amended. For every message naming a replica that exists in the registry under a
  different user, \<open>receive\<close> throws before any handler runs: no message is sent, and the
  registry, the operation log and the rest of the state are as they were.
\<close>

theorem receive_rejects_foreign_replica:
  assumes "replicas_get (replicas s) (msg_replicaId m) = Some i"
    and "r_clientId i \<noteq> tok_userId info"
  shows "receive profiles m clientKey info s
    = Raised (ReplicaNotOwned (msg_replicaId m) (tok_userId info)) s"
  using assms by (simp add: receive_def validateReplicaAccess_def)

theorem receive_rejects_foreign_replica_witness:
  "replicas_get (replicas exampleLibrary) (msg_replicaId (OpMsg (js ''rA'') []))
     = Some (exampleReplica ''rA'' ''alice'' ''t3'')
   \<and> r_clientId (exampleReplica ''rA'' ''alice'' ''t3'') \<noteq> tok_userId (exampleToken ''bob'' Realtime)
   \<and> receive exampleProfiles (OpMsg (js ''rA'') []) (js ''k2'') (exampleToken ''bob'' Realtime)
        exampleLibrary
     = Raised (ReplicaNotOwned (js ''rA'') (js ''bob'')) exampleLibrary"
proof -
  have g: "replicas_get (replicas exampleLibrary) (msg_replicaId (OpMsg (js ''rA'') []))
     = Some (exampleReplica ''rA'' ''alice'' ''t3'')"
    by (simp add: exampleLibrary_def replicas_get_def exampleReplica_def)
  have n: "r_clientId (exampleReplica ''rA'' ''alice'' ''t3'')
     \<noteq> tok_userId (exampleToken ''bob'' Realtime)"
    by (simp add: exampleReplica_def exampleToken_def js_def)
  from receive_rejects_foreign_replica [OF g n, of exampleProfiles "js ''k2''"] g n
  show ?thesis by (simp add: exampleToken_def)
qed

section \<open>sync-step2: the upload of a client's history\<close>

text \<open>
  C7. A \<open>sync-step2\<close> message sent with a read-only token is answered \<open>forbidden\<close>:
  that message to the sender is the only change, and nothing is persisted. Otherwise the
  baselines of the message are persisted, then its operations, both are rebroadcast to
  the peers in one \<open>op-re\<close> (the sender's connection omitted; nothing is broadcast when
  both lists are empty), and the sender's acknowledged timestamp is updated from the
  timestamp of the last operation, or from the timestamp of the message when it carries
  no operations; a \<open>global-ack\<close> follows when that update changes the global ack.
\<close>

theorem handleSyncStep2_persists:
  "(\<not> hasWriteAccess info \<longrightarrow>
      handleSyncStep2 r ops bls t clientKey info s
        = s\<lparr> outbox := outbox s @ [Send clientKey Forbidden] \<rparr>
      \<and> outbox (handleSyncStep2 r ops bls t clientKey info s)
        = outbox s @ [Send clientKey Forbidden]
      \<and> persisted (handleSyncStep2 r ops bls t clientKey info s) = persisted s)
   \<and> (hasWriteAccess info \<longrightarrow>
      baselines (handleSyncStep2 r ops bls t clientKey info s)
        = baselines_insertAll bls (baselines s)
      \<and> operations (handleSyncStep2 r ops bls t clientKey info s)
        = operations_insertAll r ops (operations s)
      \<and> replicas (handleSyncStep2 r ops bls t clientKey info s)
        = replicas_updateAcknowledged r (if ops = [] then t else op_timestamp (last ops))
            (replicas s)
      \<and> (\<forall>i. replicas_get (replicas s) r = Some i \<longrightarrow>
            (\<exists>i'. replicas_get (replicas (handleSyncStep2 r ops bls t clientKey info s)) r = Some i'
               \<and> r_ackedLogicalTime i'
                   = Some (ackMax (r_ackedLogicalTime i)
                       (if ops = [] then t else op_timestamp (last ops)))))
      \<and> outbox (handleSyncStep2 r ops bls t clientKey info s)
          = outbox s
            @ (if ops = [] \<and> bls = [] then []
               else [Broadcast (OpRe ops bls r (getGlobalAck [] s)) [clientKey]])
            @ (case getGlobalAck []
                      (s\<lparr> replicas :=
                            replicas_updateAcknowledged r
                              (if ops = [] then t else op_timestamp (last ops)) (replicas s) \<rparr>) of
                 None \<Rightarrow> []
               | Some g \<Rightarrow>
                   if g \<noteq> [] \<and> getGlobalAck [] s \<noteq> Some g
                   then [Broadcast (GlobalAck g) []] else []))"
proof (intro conjI impI)
  assume ro: "\<not> hasWriteAccess info"
  then show f: "handleSyncStep2 r ops bls t clientKey info s
      = s\<lparr> outbox := outbox s @ [Send clientKey Forbidden] \<rparr>"
    by (simp add: handleSyncStep2_def send_def)
  show "outbox (handleSyncStep2 r ops bls t clientKey info s)
      = outbox s @ [Send clientKey Forbidden]"
    unfolding f by simp
  show "persisted (handleSyncStep2 r ops bls t clientKey info s) = persisted s"
    unfolding f by (simp add: persisted_def)
next
  assume w: "hasWriteAccess info"
  let ?ts = "if ops = [] then t else op_timestamp (last ops)"
  let ?s3 = "rebroadcastOperations clientKey r ops bls
     (s\<lparr> baselines := baselines_insertAll bls (baselines s),
         operations := operations_insertAll r ops (operations s) \<rparr>)"
  have h: "handleSyncStep2 r ops bls t clientKey info s = updateAcknowledged r ?ts info ?s3"
    using w by (simp add: handleSyncStep2_def Let_def)
  have s3: "replicas ?s3 = replicas s"
    "baselines ?s3 = baselines_insertAll bls (baselines s)"
    "operations ?s3 = operations_insertAll r ops (operations s)"
    "outbox ?s3 = outbox s @ (if ops = [] \<and> bls = [] then []
                  else [Broadcast (OpRe ops bls r (getGlobalAck [] s)) [clientKey]])"
    by (simp_all add: rebroadcastOperations_def broadcast_def)
  show "baselines (handleSyncStep2 r ops bls t clientKey info s)
        = baselines_insertAll bls (baselines s)"
    unfolding h by (simp only: updateAcknowledged_fields s3)
  show "operations (handleSyncStep2 r ops bls t clientKey info s)
        = operations_insertAll r ops (operations s)"
    unfolding h by (simp only: updateAcknowledged_fields s3)
  show rs: "replicas (handleSyncStep2 r ops bls t clientKey info s)
        = replicas_updateAcknowledged r ?ts (replicas s)"
    unfolding h by (simp only: updateAcknowledged_fields s3)
  show "\<forall>i. replicas_get (replicas s) r = Some i \<longrightarrow>
            (\<exists>i'. replicas_get (replicas (handleSyncStep2 r ops bls t clientKey info s)) r = Some i'
               \<and> r_ackedLogicalTime i' = Some (ackMax (r_ackedLogicalTime i) ?ts))"
    unfolding rs using replicas_get_updateAcknowledged by blast
  show "outbox (handleSyncStep2 r ops bls t clientKey info s)
          = outbox s
            @ (if ops = [] \<and> bls = [] then []
               else [Broadcast (OpRe ops bls r (getGlobalAck [] s)) [clientKey]])
            @ (case getGlobalAck []
                      (s\<lparr> replicas := replicas_updateAcknowledged r ?ts (replicas s) \<rparr>) of
                 None \<Rightarrow> []
               | Some g \<Rightarrow>
                   if g \<noteq> [] \<and> getGlobalAck [] s \<noteq> Some g
                   then [Broadcast (GlobalAck g) []] else [])"
    by (rule handleSyncStep2_outbox [OF w])
qed

theorem handleSyncStep2_persists_witness:
  "\<not> hasWriteAccess (exampleToken ''carol'' ReadOnlyPull)
   \<and> outbox (handleSyncStep2 (js ''rC'')
        [exampleOperation ''test/c'' ''t4'' (Initialize (JObj []))] [exampleBaseline]
        (js ''t9'') (js ''k3'') (exampleToken ''carol'' ReadOnlyPull) exampleLibrary)
      = [Send (js ''k3'') Forbidden]
   \<and> persisted (handleSyncStep2 (js ''rC'')
        [exampleOperation ''test/c'' ''t4'' (Initialize (JObj []))] [exampleBaseline]
        (js ''t9'') (js ''k3'') (exampleToken ''carol'' ReadOnlyPull) exampleLibrary)
      = persisted exampleLibrary
   \<and> hasWriteAccess (exampleToken ''bob'' Realtime)
   \<and> baselines (handleSyncStep2 (js ''rB'')
        [exampleOperation ''test/c'' ''t4'' (Initialize (JObj [])),
         exampleOperation ''test/c'' ''t5'' (Set (js ''content'') (JPrim (js ''pears'')))]
        [exampleBaseline] (js ''t9'') (js ''k2'') (exampleToken ''bob'' Realtime) exampleLibrary)
      = baselines exampleLibrary @ [exampleBaseline]
   \<and> operations (handleSyncStep2 (js ''rB'')
        [exampleOperation ''test/c'' ''t4'' (Initialize (JObj [])),
         exampleOperation ''test/c'' ''t5'' (Set (js ''content'') (JPrim (js ''pears'')))]
        [exampleBaseline] (js ''t9'') (js ''k2'') (exampleToken ''bob'' Realtime) exampleLibrary)
      = operations exampleLibrary
        @ [toHistoryItem (js ''rB'') (exampleOperation ''test/c'' ''t4'' (Initialize (JObj []))),
           toHistoryItem (js ''rB'')
             (exampleOperation ''test/c'' ''t5'' (Set (js ''content'') (JPrim (js ''pears''))))]
   \<and> replicas (handleSyncStep2 (js ''rB'')
        [exampleOperation ''test/c'' ''t4'' (Initialize (JObj [])),
         exampleOperation ''test/c'' ''t5'' (Set (js ''content'') (JPrim (js ''pears'')))]
        [exampleBaseline] (js ''t9'') (js ''k2'') (exampleToken ''bob'' Realtime) exampleLibrary)
      = [exampleReplica ''rA'' ''alice'' ''t3'', exampleReplica ''rB'' ''bob'' ''t5'']
   \<and> outbox (handleSyncStep2 (js ''rB'')
        [exampleOperation ''test/c'' ''t4'' (Initialize (JObj [])),
         exampleOperation ''test/c'' ''t5'' (Set (js ''content'') (JPrim (js ''pears'')))]
        [exampleBaseline] (js ''t9'') (js ''k2'') (exampleToken ''bob'' Realtime) exampleLibrary)
      = [Broadcast
           (OpRe [exampleOperation ''test/c'' ''t4'' (Initialize (JObj [])),
                  exampleOperation ''test/c'' ''t5'' (Set (js ''content'') (JPrim (js ''pears'')))]
              [exampleBaseline] (js ''rB'') (Some (js ''t2''))) [js ''k2''],
         Broadcast (GlobalAck (js ''t3'')) []]"
proof -
  let ?ops = "[exampleOperation ''test/c'' ''t4'' (Initialize (JObj [])),
         exampleOperation ''test/c'' ''t5'' (Set (js ''content'') (JPrim (js ''pears'')))]"
  let ?op1 = "[exampleOperation ''test/c'' ''t4'' (Initialize (JObj []))]"
  have ro: "\<not> hasWriteAccess (exampleToken ''carol'' ReadOnlyPull)"
    by (simp add: hasWriteAccess_def exampleToken_def)
  have w: "hasWriteAccess (exampleToken ''bob'' Realtime)"
    by (simp add: hasWriteAccess_def exampleToken_def)
  have ob: "outbox exampleLibrary = []"
    by (simp add: exampleLibrary_def)
  have ne: "?ops \<noteq> []" by simp
  have ts: "op_timestamp (last ?ops) = js ''t5''"
    by (simp add: exampleOperation_def)
  have bl: "baselines_insertAll [exampleBaseline] (baselines exampleLibrary)
      = baselines exampleLibrary @ [exampleBaseline]"
    by code_simp
  have ins: "operations_insertAll (js ''rB'') ?ops (operations exampleLibrary)
      = operations exampleLibrary
        @ [toHistoryItem (js ''rB'') (exampleOperation ''test/c'' ''t4'' (Initialize (JObj []))),
           toHistoryItem (js ''rB'')
             (exampleOperation ''test/c'' ''t5'' (Set (js ''content'') (JPrim (js ''pears''))))]"
    by code_simp
  have upd: "replicas_updateAcknowledged (js ''rB'') (js ''t5'') (replicas exampleLibrary)
      = [exampleReplica ''rA'' ''alice'' ''t3'', exampleReplica ''rB'' ''bob'' ''t5'']"
    by code_simp
  have prior: "getGlobalAck [] exampleLibrary = Some (js ''t2'')"
    by code_simp
  have new: "getGlobalAck []
      (exampleLibrary\<lparr> replicas :=
         [exampleReplica ''rA'' ''alice'' ''t3'', exampleReplica ''rB'' ''bob'' ''t5''] \<rparr>)
      = Some (js ''t3'')"
    by code_simp
  have neq: "js ''t3'' \<noteq> []" "js ''t2'' \<noteq> js ''t3''"
    by (simp_all add: js_def)
  note a = handleSyncStep2_persists
    [where info = "exampleToken ''carol'' ReadOnlyPull" and r = "js ''rC''" and ops = ?op1
      and bls = "[exampleBaseline]" and t = "js ''t9''" and clientKey = "js ''k3''"
      and s = exampleLibrary]
  note b = handleSyncStep2_persists
    [where info = "exampleToken ''bob'' Realtime" and r = "js ''rB''" and ops = ?ops
      and bls = "[exampleBaseline]" and t = "js ''t9''" and clientKey = "js ''k2''"
      and s = exampleLibrary]
  from a ro have "handleSyncStep2 (js ''rC'') ?op1 [exampleBaseline]
        (js ''t9'') (js ''k3'') (exampleToken ''carol'' ReadOnlyPull) exampleLibrary
      = exampleLibrary\<lparr> outbox := outbox exampleLibrary @ [Send (js ''k3'') Forbidden] \<rparr>
    \<and> outbox (handleSyncStep2 (js ''rC'') ?op1 [exampleBaseline]
        (js ''t9'') (js ''k3'') (exampleToken ''carol'' ReadOnlyPull) exampleLibrary)
      = outbox exampleLibrary @ [Send (js ''k3'') Forbidden]
    \<and> persisted (handleSyncStep2 (js ''rC'') ?op1 [exampleBaseline]
        (js ''t9'') (js ''k3'') (exampleToken ''carol'' ReadOnlyPull) exampleLibrary)
      = persisted exampleLibrary"
    by blast
  then have a': "outbox (handleSyncStep2 (js ''rC'') ?op1 [exampleBaseline]
        (js ''t9'') (js ''k3'') (exampleToken ''carol'' ReadOnlyPull) exampleLibrary)
      = [Send (js ''k3'') Forbidden]"
    "persisted (handleSyncStep2 (js ''rC'') ?op1 [exampleBaseline]
        (js ''t9'') (js ''k3'') (exampleToken ''carol'' ReadOnlyPull) exampleLibrary)
      = persisted exampleLibrary"
    unfolding ob append_Nil by blast+
  have ts': "(if ?ops = [] then js ''t9'' else op_timestamp (last ?ops)) = js ''t5''"
    by (simp add: exampleOperation_def)
  have re: "(if ?ops = [] \<and> [exampleBaseline] = [] then []
             else [Broadcast (OpRe ?ops [exampleBaseline] (js ''rB'') (Some (js ''t2''))) [js ''k2'']])
      = [Broadcast (OpRe ?ops [exampleBaseline] (js ''rB'') (Some (js ''t2''))) [js ''k2'']]"
    by simp
  have ga: "(case Some (js ''t3'') of None \<Rightarrow> []
             | Some g \<Rightarrow> if g \<noteq> [] \<and> Some (js ''t2'') \<noteq> Some g
                 then [Broadcast (GlobalAck g) []] else [])
      = [Broadcast (GlobalAck (js ''t3'')) []]"
    using neq by simp
  note c = b [THEN conjunct2, THEN mp, OF w]
  note b' = c [THEN conjunct1, unfolded bl]
    c [THEN conjunct2, THEN conjunct1, unfolded ins]
    c [THEN conjunct2, THEN conjunct2, THEN conjunct1, unfolded ts' upd]
    c [THEN conjunct2, THEN conjunct2, THEN conjunct2, THEN conjunct2,
       unfolded ts' upd prior new ob re ga append_Nil append_Cons]
  from ro w a' b' show ?thesis by (intro conjI)
qed

section \<open>ack: the acknowledged timestamp and the global ack\<close>

text \<open>
  C8. On an \<open>ack\<close> message (timestamps being non-empty strings) the acknowledged
  timestamp of the sender becomes the maximum of its current value and the timestamp of
  the message, and \<open>global-ack\<close> with the new global ack is broadcast to all peers
  exactly when the global ack advanced.
\<close>

theorem handleAck_updates_and_broadcasts:
  assumes "t \<noteq> []" and "\<forall>i\<in>set (replicas s). r_ackedLogicalTime i \<noteq> Some []"
  shows "replicas (handleAck r t clientKey info s) = replicas_updateAcknowledged r t (replicas s)
    \<and> (\<forall>i. replicas_get (replicas s) r = Some i \<longrightarrow>
          (\<exists>i'. replicas_get (replicas (handleAck r t clientKey info s)) r = Some i'
             \<and> r_ackedLogicalTime i' = Some (ackMax (r_ackedLogicalTime i) t)))
    \<and> outbox (handleAck r t clientKey info s)
        = outbox s
          @ (case getGlobalAck [] (handleAck r t clientKey info s) of
               None \<Rightarrow> []
             | Some n \<Rightarrow>
                 if ackAdvanced (getGlobalAck [] s) (Some n)
                 then [Broadcast (GlobalAck n) []] else [])"
proof (intro conjI)
  let ?s1 = "s\<lparr> replicas := replicas_updateAcknowledged r t (replicas s) \<rparr>"
  show rs: "replicas (handleAck r t clientKey info s)
      = replicas_updateAcknowledged r t (replicas s)"
    by (simp add: handleAck_def updateAcknowledged_fields)
  show "\<forall>i. replicas_get (replicas s) r = Some i \<longrightarrow>
          (\<exists>i'. replicas_get (replicas (handleAck r t clientKey info s)) r = Some i'
             \<and> r_ackedLogicalTime i' = Some (ackMax (r_ackedLogicalTime i) t))"
    unfolding rs using replicas_get_updateAcknowledged by blast
  have ga: "getGlobalAck [] (handleAck r t clientKey info s) = getGlobalAck [] ?s1"
    by (simp add: getGlobalAck_def handleAck_def updateAcknowledged_def broadcast_def Let_def
        split: option.splits)
  show "outbox (handleAck r t clientKey info s)
        = outbox s
          @ (case getGlobalAck [] (handleAck r t clientKey info s) of
               None \<Rightarrow> []
             | Some n \<Rightarrow>
                 if ackAdvanced (getGlobalAck [] s) (Some n)
                 then [Broadcast (GlobalAck n) []] else [])"
  proof (cases "getGlobalAck [] ?s1")
    case None
    then show ?thesis
      unfolding ga by (simp add: handleAck_def updateAcknowledged_def Let_def)
  next
    case (Some n)
    from globalAck_broadcast_iff [OF assms Some]
    show ?thesis
      unfolding ga using Some
      by (auto simp: handleAck_def updateAcknowledged_def broadcast_def Let_def)
  qed
qed

theorem handleAck_updates_and_broadcasts_witness:
  "outbox (handleAck (js ''rB'') (js ''t4'') (js ''k2'') (exampleToken ''bob'' Realtime)
      exampleLibrary) = [Broadcast (GlobalAck (js ''t3'')) []]
   \<and> replicas (handleAck (js ''rB'') (js ''t4'') (js ''k2'') (exampleToken ''bob'' Realtime)
      exampleLibrary) = [exampleReplica ''rA'' ''alice'' ''t3'', exampleReplica ''rB'' ''bob'' ''t4'']"
proof -
  have t: "js ''t4'' \<noteq> []" by (simp add: js_def)
  have reg: "\<forall>i\<in>set (replicas exampleLibrary). r_ackedLogicalTime i \<noteq> Some []"
    by (simp add: exampleLibrary_def exampleReplica_def js_def)
  have prior: "getGlobalAck [] exampleLibrary = Some (js ''t2'')"
    by code_simp
  have new: "getGlobalAck [] (handleAck (js ''rB'') (js ''t4'') (js ''k2'')
      (exampleToken ''bob'' Realtime) exampleLibrary) = Some (js ''t3'')"
    by code_simp
  have adv: "ackAdvanced (Some (js ''t2'')) (Some (js ''t3''))"
    by code_simp
  have ob: "outbox exampleLibrary = []"
    by (simp add: exampleLibrary_def)
  have upd: "replicas_updateAcknowledged (js ''rB'') (js ''t4'') (replicas exampleLibrary)
    = [exampleReplica ''rA'' ''alice'' ''t3'', exampleReplica ''rB'' ''bob'' ''t4'']"
    by code_simp
  from handleAck_updates_and_broadcasts [OF t reg, of "js ''rB''" "js ''k2''"
      "exampleToken ''bob'' Realtime"]
  show ?thesis
    unfolding new prior ob upd using adv by simp
qed

section \<open>The range of the OIDs of a document\<close>

lemma le_append_self: "(r :: 'a::linorder list) \<le> r @ s"
  by (induction r) simp_all

lemma append_le_append_less:
  "(c :: 'a::linorder) < d \<Longrightarrow> r @ c # s \<le> r @ d # u"
  by (induction r) simp_all

lemma within_prefix:
  "(r :: 'a::linorder list) \<le> x \<Longrightarrow> x \<le> r @ u \<Longrightarrow> take (length r) x = r"
proof (induction r arbitrary: x)
  case Nil
  then show ?case by simp
next
  case (Cons a r)
  then obtain b y where x: "x = b # y" by (cases x) auto
  from Cons.prems have "a = b" "r \<le> y" "y \<le> r @ u"
    unfolding x by auto
  with Cons.IH show ?case unfolding x by simp
qed

lemma createSubOid_within: "isWithin (createSubOid root keyPath subId) (getOidRange root)"
proof -
  have "(0x2E :: 16 word) < 0x3A" by simp
  then have "root @ 0x2E # (joinPath keyPath @ js '':'' @ subId) \<le> root @ 0x3A # [0xFFFF]"
    by (rule append_le_append_less)
  then show ?thesis
    by (simp add: isWithin_def getOidRange_def createSubOid_def js_def le_append_self)
qed

lemma assign_within:
  "\<forall>x\<in>set (fst (assignValue mk root kp v n)). isWithin x (getOidRange root)"
  "\<forall>x\<in>set (fst (assignFields mk root kp fs n)). isWithin x (getOidRange root)"
  "\<forall>x\<in>set (fst (assignItems mk root kp xs n)). isWithin x (getOidRange root)"
proof (induction mk root kp v n and mk root kp fs n and mk root kp xs n
    rule: assignValue_assignFields_assignItems.induct)
  case (1 createSubId root keyPath fs n)
  then show ?case by (auto simp: createSubOid_within split: prod.splits)
next
  case (2 createSubId root keyPath xs n)
  then show ?case by (auto simp: createSubOid_within split: prod.splits)
next
  case (7 createSubId root keyPath kv rest n)
  then show ?case by (fastforce split: prod.splits)
next
  case (9 createSubId root keyPath v rest n)
  then show ?case by (fastforce split: prod.splits)
qed simp_all

text \<open>The expectations of \<open>oids.test.ts\<close> hold of the model.\<close>

lemma oids_test_expectations:
  "assignOidsToAllSubObjects exampleSubId (js ''test/a'') exampleDocument
     = [js ''test/a.foo:0'', js ''test/a.foo.baz:1'', js ''test/a.qux:2'',
        js ''test/a.qux.#:3'', js ''test/a.qux.#:4'', js ''test/a.qux.#.grault:5'']"
  "isWithin (js ''test/a'') (getOidRange (js ''test/a''))"
  "isWithin (js ''test/a:0'') (getOidRange (js ''test/a''))"
  "isWithin (js ''test/a:zzzzzzzzzzzzzzzzzzzzzzz'') (getOidRange (js ''test/a''))"
  "isWithin (js ''test/a'' @ [0x3A, 0xFFFF]) (getOidRange (js ''test/a''))"
  "\<not> isWithin (js ''test1/a'') (getOidRange (js ''test/a''))"
  "\<not> isWithin (js ''test/b'') (getOidRange (js ''test/a''))"
  "\<not> isWithin (js ''test/ '') (getOidRange (js ''test/a''))"
  by code_simp+

text \<open>
  C9 as stated: the OIDs of other roots fall outside the range of a root. The root
  \<open>test/a0\<close> lies within the range of the root \<open>test/a\<close>, the digit \<open>0\<close> being smaller
  than the colon.
\<close>

theorem oid_range_counterexample:
  "createRootOid (js ''test'') (js ''a0'') \<noteq> createRootOid (js ''test'') (js ''a'')
   \<and> isWithin (createRootOid (js ''test'') (js ''a0''))
        (getOidRange (createRootOid (js ''test'') (js ''a'')))"
  by code_simp

text \<open>
  C9, amended. For any root OID \<open>r\<close>, every sub-object OID generated under \<open>r\<close> lies
  between \<open>r\<close> and \<open>r\<close> followed by \<open>:\<close> and the code unit \<open>0xFFFF\<close> (strings compared
  as JavaScript compares them), \<open>getOidRange r\<close> is exactly that pair, and an OID that
  does not begin with \<open>r\<close> falls outside the range.
\<close>

theorem sub_object_oids_within_range:
  "(\<forall>x\<in>set (assignOidsToAllSubObjects createSubId r obj). isWithin x (getOidRange r))
   \<and> getOidRange r = (r, r @ [0x3A, 0xFFFF])
   \<and> isWithin r (getOidRange r)
   \<and> (\<forall>y. take (length r) y \<noteq> r \<longrightarrow> \<not> isWithin y (getOidRange r))"
proof (intro conjI)
  show "\<forall>x\<in>set (assignOidsToAllSubObjects createSubId r obj). isWithin x (getOidRange r)"
    using assign_within(2,3) by (cases obj) (simp_all add: assignOidsToAllSubObjects_def)
  show "getOidRange r = (r, r @ [0x3A, 0xFFFF])"
    by (simp add: getOidRange_def)
  show "isWithin r (getOidRange r)"
    by (simp add: isWithin_def getOidRange_def le_append_self)
  show "\<forall>y. take (length r) y \<noteq> r \<longrightarrow> \<not> isWithin y (getOidRange r)"
    using within_prefix by (auto simp: isWithin_def getOidRange_def)
qed

theorem sub_object_oids_within_range_witness:
  "js ''test/a.qux.#.grault:5'' \<in> set (assignOidsToAllSubObjects exampleSubId (js ''test/a'') exampleDocument)
   \<and> isWithin (js ''test/a.qux.#.grault:5'') (getOidRange (js ''test/a''))
   \<and> take (length (js ''test/a'')) (js ''test/b'') \<noteq> js ''test/a''
   \<and> \<not> isWithin (js ''test/b'') (getOidRange (js ''test/a''))"
proof -
  have m: "js ''test/a.qux.#.grault:5''
      \<in> set (assignOidsToAllSubObjects exampleSubId (js ''test/a'') exampleDocument)"
    by code_simp
  have p: "take (length (js ''test/a'')) (js ''test/b'') \<noteq> js ''test/a''"
    by (simp add: js_def)
  from sub_object_oids_within_range [of exampleSubId "js ''test/a''" exampleDocument] m p
  show ?thesis by blast
qed

section \<open>Deliveries without operations or baselines\<close>




end
